theory Spec2Isabelle
  imports Main "HOL-Library.AList" "HOL-Library.Char_ord" "HOL-Library.List_Lexorder"
    "HOL-Library.Sublist"
begin

section \<open>The package initialisation of bob.ip.gabor\<close>

text \<open>
  The source is the module body of \<^verbatim>\<open>src/bob/ip/gabor/__init__.py\<close>: seven import
  statements, one call of the extension loader, the definition of \<^verbatim>\<open>get_config\<close> and the
  assignment of \<^verbatim>\<open>__all__\<close>. Every statement becomes a function on an explicit interpreter
  state; what lives outside the file (the modules that are imported, the objects they hold, the
  functions that are called there) is the parameter \<open>world\<close>.
\<close>

subsection \<open>Values, errors, effects\<close>

datatype val =
    VNone
  | VStr string
  | VList "val list"
  | VModule string            \<comment> \<open>a module object, by its absolute dotted name\<close>
  | VFunc string string       \<comment> \<open>a Python function: defining module, name\<close>
  | VObj nat                  \<comment> \<open>any other object (a class, a native function, ...)\<close>

datatype error =
    Raised string             \<comment> \<open>an exception raised by code outside this file\<close>
  | NameError string
  | AttributeError val string
  | ImportError string string \<comment> \<open>cannot import name (module, name)\<close>
  | TypeError string

datatype event =
    EImport string            \<comment> \<open>a statement of the body asks the import system for a module\<close>
  | EDep string               \<comment> \<open>a module is executed on the way: a parent package, a nested import\<close>
  | ELoad string              \<comment> \<open>the module asked for is executed, it was not in \<^verbatim>\<open>sys.modules\<close>\<close>
  | ECall val "val list"      \<comment> \<open>a callable outside this file is called\<close>

text \<open>
  The environment of the file. \<open>exec_module\<close> is the outcome of executing a module that is not
  yet in \<^verbatim>\<open>sys.modules\<close> (\<open>None\<close>: it loads); \<open>imports_of\<close> are the modules outside the
  package that this execution imports on the way, until it completes or fails (the parent
  packages of the module, the modules its own body imports, and theirs), in the order in which
  they complete; \<open>star_names\<close> are the bindings
  that \<^verbatim>\<open>from m import *\<close> introduces (the names of the module's own \<^verbatim>\<open>__all__\<close>, or its
  names without a leading underscore); \<open>attr_of\<close> are the attributes of the objects outside;
  \<open>call_ext\<close> is what calling such an object returns or raises; \<open>builtin_of\<close> are the names
  of the module \<^verbatim>\<open>builtins\<close>. The last five fields are what the interpreter puts into the
  namespace of the package before it runs the body.
\<close>

record world =
  exec_module :: "string \<Rightarrow> error option"
  imports_of :: "string \<Rightarrow> string list"
  star_names :: "string \<Rightarrow> (string \<times> val) list"
  attr_of :: "val \<Rightarrow> string \<Rightarrow> val option"
  call_ext :: "val \<Rightarrow> val list \<Rightarrow> error + val"
  builtin_of :: "string \<Rightarrow> val option"
  file_path :: string
  pkg_dir :: string
  cached_path :: string
  module_loader :: val
  module_spec :: val

text \<open>
  The interpreter state: \<open>ns\<close> is the package's module dictionary in insertion order,
  \<open>initialised\<close> says that \<^verbatim>\<open>sys.modules\<close> holds the package, \<open>loaded\<close> are the other
  modules of \<^verbatim>\<open>sys.modules\<close>, \<open>events\<close> the effects outside the namespace in the order
  they happened, and \<open>stores\<close> every binding made in the namespace since the interpreter
  created it, in order.
\<close>

record state =
  ns :: "(string \<times> val) list"
  initialised :: bool
  loaded :: "string list"
  events :: "event list"
  stores :: "(string \<times> val) list"

type_synonym stmt = "state \<Rightarrow> error option \<times> state"

definition pkg_name :: string where
  "pkg_name = ''bob.ip.gabor''"

definition submodule :: "string \<Rightarrow> string" where
  "submodule c = pkg_name @ ''.'' @ c"

definition top_name :: "string \<Rightarrow> string" where
  "top_name m = takeWhile (\<lambda>c. c \<noteq> CHR ''.'') m"

definition startswith :: "string \<Rightarrow> string \<Rightarrow> bool" where
  "startswith s p = (take (length p) s = p)"

subsection \<open>Names, attributes, calls\<close>

definition bind_name :: "string \<Rightarrow> val \<Rightarrow> state \<Rightarrow> state" where
  "bind_name n v s = s\<lparr>ns := AList.update n v (ns s), stores := stores s @ [(n, v)]\<rparr>"

text \<open>A name is looked up in the namespace of the module, then in \<^verbatim>\<open>builtins\<close>.\<close>

definition load_name :: "world \<Rightarrow> string \<Rightarrow> state \<Rightarrow> error + val" where
  "load_name w n s =
     (case map_of (ns s) n of
        Some v \<Rightarrow> Inr v
      | None \<Rightarrow> (case builtin_of w n of Some v \<Rightarrow> Inr v | None \<Rightarrow> Inl (NameError n)))"

definition load_attr :: "world \<Rightarrow> val \<Rightarrow> string \<Rightarrow> error + val" where
  "load_attr w v a = (case attr_of w v a of None \<Rightarrow> Inl (AttributeError v a) | Some x \<Rightarrow> Inr x)"

definition call_external :: "world \<Rightarrow> val \<Rightarrow> val list \<Rightarrow> state \<Rightarrow> (error + val) \<times> state" where
  "call_external w f args s = (call_ext w f args, s\<lparr>events := events s @ [ECall f args]\<rparr>)"

subsection \<open>The import system\<close>

text \<open>
  The import system is asked for a module by its absolute name. A module that is in
  \<^verbatim>\<open>sys.modules\<close> is not executed again. Otherwise the module is executed, and with it the
  modules it imports on the way that are not in \<^verbatim>\<open>sys.modules\<close> yet; these stay there also
  when the module itself fails, which is then not registered. The result says whether the
  module was executed now.
\<close>

definition import_module :: "world \<Rightarrow> string \<Rightarrow> state \<Rightarrow> (error + bool) \<times> state" where
  "import_module w m s =
     (let s1 = s\<lparr>events := events s @ [EImport m]\<rparr> in
      if m \<in> set (loaded s) then (Inr False, s1)
      else
        let new = remdups (filter (\<lambda>n. n \<notin> set (loaded s) \<and> n \<noteq> m) (imports_of w m));
            s2 = s1\<lparr>events := events s1 @ map EDep new @ [ELoad m], loaded := loaded s @ new\<rparr>
        in (case exec_module w m of
              Some e \<Rightarrow> (Inl e, s2)
            | None \<Rightarrow> (Inr True, s2\<lparr>loaded := loaded s2 @ [m]\<rparr>)))"

text \<open>
  A submodule of the package: when the import system has executed it, it binds the submodule
  under its own name in the namespace of the package.
\<close>

definition import_submodule :: "world \<Rightarrow> string \<Rightarrow> stmt" where
  "import_submodule w c s =
     (case import_module w (submodule c) s of
        (Inl e, s') \<Rightarrow> (Some e, s')
      | (Inr fresh, s') \<Rightarrow>
          (None, if fresh then bind_name c (VModule (submodule c)) s' else s'))"

text \<open>\<^verbatim>\<open>import a.b.c\<close> binds the top-level package \<^verbatim>\<open>a\<close>.\<close>

definition import_dotted :: "world \<Rightarrow> string \<Rightarrow> stmt" where
  "import_dotted w m s =
     (case import_module w m s of
        (Inl e, s') \<Rightarrow> (Some e, s')
      | (Inr _, s') \<Rightarrow> (None, bind_name (top_name m) (VModule (top_name m)) s'))"

text \<open>\<^verbatim>\<open>from .c import *\<close> binds the names of the module one after the other.\<close>

fun bind_all :: "(string \<times> val) list \<Rightarrow> state \<Rightarrow> state" where
  "bind_all [] s = s"
| "bind_all ((n, v) # xs) s = bind_all xs (bind_name n v s)"

definition from_import_star :: "world \<Rightarrow> string \<Rightarrow> stmt" where
  "from_import_star w c s =
     (case import_submodule w c s of
        (Some e, s') \<Rightarrow> (Some e, s')
      | (None, s') \<Rightarrow> (None, bind_all (star_names w (submodule c)) s'))"

text \<open>
  \<^verbatim>\<open>from . import c\<close>: a name that the package already has is taken as it is; only
  otherwise is \<^verbatim>\<open>c\<close> taken for a submodule and imported (a submodule that is loaded but
  not bound in the package is found in \<^verbatim>\<open>sys.modules\<close>, as Python 3 does).
\<close>

definition from_package_import :: "world \<Rightarrow> string \<Rightarrow> stmt" where
  "from_package_import w c s =
     (case map_of (ns s) c of
        Some v \<Rightarrow> (None, bind_name c v s)
      | None \<Rightarrow>
          (case import_submodule w c s of
             (Some e, s') \<Rightarrow> (Some e, s')
           | (None, s') \<Rightarrow> (None, bind_name c (VModule (submodule c)) s')))"

text \<open>\<^verbatim>\<open>from .c import a as b, ...\<close>: each name is read from the module and bound in turn.\<close>

fun import_names :: "world \<Rightarrow> string \<Rightarrow> (string \<times> string) list \<Rightarrow> stmt" where
  "import_names w m [] s = (None, s)"
| "import_names w m ((a, b) # rest) s =
     (case attr_of w (VModule m) a of
        None \<Rightarrow> (Some (ImportError m a), s)
      | Some v \<Rightarrow> import_names w m rest (bind_name b v s))"

definition from_import :: "world \<Rightarrow> string \<Rightarrow> (string \<times> string) list \<Rightarrow> stmt" where
  "from_import w c names s =
     (case import_submodule w c s of
        (Some e, s') \<Rightarrow> (Some e, s')
      | (None, s') \<Rightarrow> import_names w (submodule c) names s')"

subsection \<open>The statements of the module body\<close>

text \<open>\<^verbatim>\<open>bob.extension.load_bob_library('bob.ip.gabor', __file__)\<close>\<close>

definition load_bob_library_stmt :: "world \<Rightarrow> stmt" where
  "load_bob_library_stmt w s =
     (case load_name w ''bob'' s of Inl e \<Rightarrow> (Some e, s) | Inr b \<Rightarrow>
      case load_attr w b ''extension'' of Inl e \<Rightarrow> (Some e, s) | Inr x \<Rightarrow>
      case load_attr w x ''load_bob_library'' of Inl e \<Rightarrow> (Some e, s) | Inr f \<Rightarrow>
      case load_name w ''__file__'' s of Inl e \<Rightarrow> (Some e, s) | Inr p \<Rightarrow>
      case call_external w f [VStr ''bob.ip.gabor'', p] s of
        (Inl e, s') \<Rightarrow> (Some e, s')
      | (Inr _, s') \<Rightarrow> (None, s'))"

text \<open>\<^verbatim>\<open>def get_config(): ...\<close> binds the function object.\<close>

definition def_get_config :: stmt where
  "def_get_config s = (None, bind_name ''get_config'' (VFunc pkg_name ''get_config'') s)"

text \<open>
  The body of \<^verbatim>\<open>get_config\<close>:
  \<^verbatim>\<open>return bob.extension.get_config(__name__, version.externals, version.api)\<close>,
  the callee first, then the arguments from left to right, each global looked up at the call.
\<close>

definition get_config :: "world \<Rightarrow> state \<Rightarrow> (error + val) \<times> state" where
  "get_config w s =
     (case load_name w ''bob'' s of Inl e \<Rightarrow> (Inl e, s) | Inr b \<Rightarrow>
      case load_attr w b ''extension'' of Inl e \<Rightarrow> (Inl e, s) | Inr x \<Rightarrow>
      case load_attr w x ''get_config'' of Inl e \<Rightarrow> (Inl e, s) | Inr f \<Rightarrow>
      case load_name w ''__name__'' s of Inl e \<Rightarrow> (Inl e, s) | Inr n \<Rightarrow>
      case load_name w ''version'' s of Inl e \<Rightarrow> (Inl e, s) | Inr v1 \<Rightarrow>
      case load_attr w v1 ''externals'' of Inl e \<Rightarrow> (Inl e, s) | Inr ext \<Rightarrow>
      case load_name w ''version'' s of Inl e \<Rightarrow> (Inl e, s) | Inr v2 \<Rightarrow>
      case load_attr w v2 ''api'' of Inl e \<Rightarrow> (Inl e, s) | Inr api \<Rightarrow>
      call_external w f [n, ext, api] s)"

text \<open>
  \<^verbatim>\<open>__all__ = [_ for _ in dir() if not _.startswith('_')]\<close>: \<^verbatim>\<open>dir()\<close> is the sorted
  list of the names of the namespace; the loop variable is local to the comprehension
  (Python 3).
\<close>

definition dir_names :: "state \<Rightarrow> string list" where
  "dir_names s = sort (map fst (ns s))"

definition public_names :: "state \<Rightarrow> string list" where
  "public_names s = filter (\<lambda>n. \<not> startswith n ''_'') (dir_names s)"

definition assign_all :: stmt where
  "assign_all s = (None, bind_name ''__all__'' (VList (map VStr (public_names s))) s)"

subsection \<open>The module body and the import of the package\<close>

fun exec :: "stmt list \<Rightarrow> stmt" where
  "exec [] s = (None, s)"
| "exec (c # cs) s = (case c s of (Some e, s') \<Rightarrow> (Some e, s') | (None, s') \<Rightarrow> exec cs s')"

text \<open>The statements before the assignment of \<^verbatim>\<open>__all__\<close>, lines 2 to 18.\<close>

definition preamble :: "world \<Rightarrow> stmt list" where
  "preamble w =
     [import_dotted w ''bob.io.base'',
      import_dotted w ''bob.sp'',
      import_dotted w ''bob.extension'',
      load_bob_library_stmt w,
      from_import_star w ''_library'',
      from_package_import w ''version'',
      from_import w ''version'' [(''module'', ''__version__'')],
      from_import w ''version'' [(''api'', ''__api_version__'')],
      from_import w ''auxiliar'' [(''load_jets'', ''load_jets''), (''save_jets'', ''save_jets'')],
      def_get_config]"

definition module_body :: "world \<Rightarrow> stmt list" where
  "module_body w = preamble w @ [assign_all]"

text \<open>
  The names the interpreter sets in a package's namespace before it runs the body, in the
  order in which Python 3 sets them.
\<close>

definition init_ns :: "world \<Rightarrow> (string \<times> val) list" where
  "init_ns w =
     [(''__name__'', VStr pkg_name),
      (''__doc__'', VNone),
      (''__package__'', VStr pkg_name),
      (''__loader__'', module_loader w),
      (''__spec__'', module_spec w),
      (''__path__'', VList [VStr (pkg_dir w)]),
      (''__file__'', VStr (file_path w)),
      (''__cached__'', VStr (cached_path w)),
      (''__builtins__'', VModule ''builtins'')]"

definition fresh_module :: "world \<Rightarrow> state \<Rightarrow> state" where
  "fresh_module w s = s\<lparr>ns := init_ns w, stores := []\<rparr>"

text \<open>
  \<^verbatim>\<open>import bob.ip.gabor\<close>, as the interpreter does it: a package that is in
  \<^verbatim>\<open>sys.modules\<close> is returned as it is; otherwise the body runs over a new namespace, and a
  body that raises leaves no package behind.
\<close>

definition import_package :: "world \<Rightarrow> stmt" where
  "import_package w s =
     (if initialised s then (None, s)
      else (case exec (module_body w) (fresh_module w s) of
              (None, s') \<Rightarrow> (None, s'\<lparr>initialised := True\<rparr>)
            | (Some e, s') \<Rightarrow> (Some e, s'\<lparr>ns := []\<rparr>)))"

text \<open>
  Calling a value of the namespace. \<^verbatim>\<open>get_config\<close> is the function of this file and takes
  no argument. Modelled from the spec: the other functions of the namespace (\<^verbatim>\<open>load_jets\<close>,
  \<^verbatim>\<open>save_jets\<close>, the native library's) are defined outside this file; the spec has them
  opaque and says that invoking them does not alter the package's namespace, so their call
  reaches the namespace in no way.
\<close>

definition call_value :: "world \<Rightarrow> val \<Rightarrow> val list \<Rightarrow> state \<Rightarrow> (error + val) \<times> state" where
  "call_value w f args s =
     (if f = VFunc pkg_name ''get_config''
      then (if args = [] then get_config w s else (Inl (TypeError ''get_config''), s))
      else call_external w f args s)"

subsection \<open>The order of effects\<close>

text \<open>The object that \<^verbatim>\<open>bob.extension.load_bob_library\<close> denotes, where it exists.\<close>

definition loader :: "world \<Rightarrow> val" where
  "loader w =
     (case attr_of w (VModule ''bob'') ''extension'' of
        None \<Rightarrow> VNone
      | Some x \<Rightarrow> (case attr_of w x ''load_bob_library'' of None \<Rightarrow> VNone | Some f \<Rightarrow> f))"

text \<open>
  The steps of the body are what its own statements do outside the namespace: they ask the
  import system for a module, they call a function. What the import system executes in
  answer is no step of the body.
\<close>

fun is_step :: "event \<Rightarrow> bool" where
  "is_step (EImport m) = True"
| "is_step (ECall f args) = True"
| "is_step (EDep m) = False"
| "is_step (ELoad m) = False"

text \<open>
  The steps of a complete run of the body, in the order of the source lines 2, 3, 6, 7, 9, 10,
  11, 12 and 13. Line 10, \<^verbatim>\<open>from . import version\<close>, asks for the submodule only when the
  wildcard import of line 9 has not bound the name \<^verbatim>\<open>version\<close>.
\<close>

definition schedule :: "world \<Rightarrow> event list" where
  "schedule w =
     [EImport ''bob.io.base'', EImport ''bob.sp'', EImport ''bob.extension'',
      ECall (loader w) [VStr ''bob.ip.gabor'', VStr (file_path w)],
      EImport (submodule ''_library'')] @
     (if ''version'' \<in> fst ` set (star_names w (submodule ''_library'')) then []
      else [EImport (submodule ''version'')]) @
     [EImport (submodule ''version''), EImport (submodule ''version''),
      EImport (submodule ''auxiliar'')]"

text \<open>
  A module has been executed when it was in \<^verbatim>\<open>sys.modules\<close> at the start or a list of
  effects holds its execution.
\<close>

definition executed :: "state \<Rightarrow> event list \<Rightarrow> string \<Rightarrow> bool" where
  "executed s evs m \<longleftrightarrow> m \<in> set (loaded s) \<or> ELoad m \<in> set evs \<or> EDep m \<in> set evs"

text \<open>
  The outcome of an effect, as far as the body sees it: the error with which the execution
  of the module asked for, or the call, ends.
\<close>

fun outcome :: "world \<Rightarrow> event \<Rightarrow> error option" where
  "outcome w (ELoad m) = exec_module w m"
| "outcome w (ECall f args) = (case call_ext w f args of Inl e \<Rightarrow> Some e | Inr v \<Rightarrow> None)"
| "outcome w (EImport m) = None"
| "outcome w (EDep m) = None"

subsection \<open>A concrete environment\<close>

definition lib_names :: "(string \<times> val) list" where
  "lib_names = [(''Wavelet'', VObj 1), (''Transform'', VObj 2), (''Jet'', VObj 3),
     (''Graph'', VObj 4), (''Similarity'', VObj 5)]"

definition attrs0 :: "((val \<times> string) \<times> val) list" where
  "attrs0 =
     [((VModule ''bob'', ''extension''), VModule ''bob.extension''),
      ((VModule ''bob.extension'', ''load_bob_library''), VFunc ''bob.extension'' ''load_bob_library''),
      ((VModule ''bob.extension'', ''get_config''), VFunc ''bob.extension'' ''get_config''),
      ((VModule ''bob.ip.gabor.version'', ''module''), VStr ''2.0.0''),
      ((VModule ''bob.ip.gabor.version'', ''api''), VObj 512),
      ((VModule ''bob.ip.gabor.version'', ''externals''), VObj 7),
      ((VModule ''bob.ip.gabor.auxiliar'', ''load_jets''), VFunc ''bob.ip.gabor.auxiliar'' ''load_jets''),
      ((VModule ''bob.ip.gabor.auxiliar'', ''save_jets''), VFunc ''bob.ip.gabor.auxiliar'' ''save_jets'')]"

text \<open>
  In this environment \<^verbatim>\<open>bob.io.base\<close> imports \<^verbatim>\<open>bob.extension\<close> itself, as the package of
  that name does, so \<^verbatim>\<open>bob.extension\<close> is executed before \<^verbatim>\<open>bob.sp\<close>.
\<close>

definition w0 :: world where
  "w0 = \<lparr>exec_module = (\<lambda>m. None),
         imports_of = (\<lambda>m. if m = ''bob.io.base'' then [''bob'', ''bob.io'', ''bob.extension'']
            else if m = ''bob.sp'' then [''bob'', ''bob.extension''] else []),
         star_names = (\<lambda>m. if m = ''bob.ip.gabor._library'' then lib_names else []),
         attr_of = (\<lambda>v a. map_of attrs0 (v, a)),
         call_ext = (\<lambda>f args.
            if f = VFunc ''bob.extension'' ''get_config'' then Inr (VStr ''bob.ip.gabor: 2.0.0'')
            else Inr VNone),
         builtin_of = (\<lambda>n. if n = ''dir'' then Some (VObj 0) else None),
         file_path = ''/site/bob/ip/gabor/__init__.py'',
         pkg_dir = ''/site/bob/ip/gabor'',
         cached_path = ''/site/bob/ip/gabor/__pycache__/__init__.pyc'',
         module_loader = VObj 10,
         module_spec = VObj 11\<rparr>"

definition s0 :: state where
  "s0 = \<lparr>ns = [], initialised = False, loaded = [], events = [], stores = []\<rparr>"

text \<open>
  An environment where the native library cannot be loaded and the formatting utility raises,
  and one where the extension loader raises.
\<close>

definition w1 :: world where
  "w1 = w0\<lparr>exec_module := (\<lambda>m. if m = ''bob.ip.gabor._library''
              then Some (Raised ''cannot open shared object file'') else None),
            call_ext := (\<lambda>f args. if f = VFunc ''bob.extension'' ''get_config''
              then Inl (Raised ''DistributionNotFound'') else Inr VNone)\<rparr>"

definition w2 :: world where
  "w2 = w0\<lparr>call_ext := (\<lambda>f args. if f = VFunc ''bob.extension'' ''load_bob_library''
              then Inl (Raised ''library not found'') else Inr VNone)\<rparr>"

subsection \<open>Auxiliary notions for the proofs\<close>

text \<open>
  The import system binds a submodule in the namespace only when it executes it; \<open>maybe\<close> and
  \<open>maybe_store\<close> write that binding and its entry in the log with the condition as a parameter.
\<close>

definition maybe :: "bool \<Rightarrow> string \<Rightarrow> (string \<times> val) list \<Rightarrow> (string \<times> val) list" where
  "maybe b c al = (if b then AList.update c (VModule (submodule c)) al else al)"

definition maybe_store :: "bool \<Rightarrow> string \<Rightarrow> (string \<times> val) list" where
  "maybe_store b c = (if b then [(c, VModule (submodule c))] else [])"

text \<open>
  A run from \<open>s\<close> to \<open>s'\<close> with result \<open>r\<close> adds the effects \<open>evs\<close>: the modules in
  \<^verbatim>\<open>sys.modules\<close> only become more, and only by the executions in \<open>evs\<close>; no effect before
  the last one fails, and when the last one fails the run ends with its error.
\<close>

definition run_of :: "world \<Rightarrow> state \<Rightarrow> error option \<Rightarrow> state \<Rightarrow> event list \<Rightarrow> bool" where
  "run_of w s r s' evs \<longleftrightarrow>
     events s' = events s @ evs \<and>
     set (loaded s) \<subseteq> set (loaded s') \<and>
     (\<forall>m \<in> set (loaded s'). executed s evs m) \<and>
     (\<forall>x \<in> set (butlast evs). outcome w x = None) \<and>
     (\<forall>e. evs \<noteq> [] \<longrightarrow> outcome w (last evs) = Some e \<longrightarrow> r = Some e)"

text \<open>
  A list of statements follows a list of steps from a state when, however the run ends, its
  steps are an initial segment of the list, and the whole list when the run succeeds; the
  modules \<open>ms\<close> are then in \<^verbatim>\<open>sys.modules\<close>.
\<close>

definition follows :: "world \<Rightarrow> stmt list \<Rightarrow> state \<Rightarrow> event list \<Rightarrow> string list \<Rightarrow> bool" where
  "follows w cs s steps ms \<longleftrightarrow>
     (\<forall>r s'. exec cs s = (r, s') \<longrightarrow>
        (\<exists>evs. run_of w s r s' evs \<and> prefix (filter is_step evs) steps \<and>
           (r = None \<longrightarrow> filter is_step evs = steps \<and> set ms \<subseteq> set (loaded s'))))"


text \<open>
  Where an error of the initialisation comes from: the module loader or the called function
  raised it as the last effect, or the interpreter raised it for an attribute that is missing.
\<close>

definition raised_by :: "world \<Rightarrow> error \<Rightarrow> state \<Rightarrow> bool" where
  "raised_by w e s' \<longleftrightarrow>
     (\<exists>m. exec_module w m = Some e \<and> events s' \<noteq> [] \<and> last (events s') = ELoad m) \<or>
     (\<exists>f args. call_ext w f args = Inl e \<and> events s' \<noteq> [] \<and> last (events s') = ECall f args) \<or>
     (\<exists>v a. attr_of w v a = None \<and> e = AttributeError v a) \<or>
     (\<exists>m a. attr_of w (VModule m) a = None \<and> e = ImportError m a)"

section \<open>Properties of the statements\<close>

lemma ns_bind_name [simp]: "ns (bind_name n v s) = AList.update n v (ns s)"
  and stores_bind_name [simp]: "stores (bind_name n v s) = stores s @ [(n, v)]"
  and loaded_bind_name [simp]: "loaded (bind_name n v s) = loaded s"
  and events_bind_name [simp]: "events (bind_name n v s) = events s"
  and initialised_bind_name [simp]: "initialised (bind_name n v s) = initialised s"
  by (simp_all add: bind_name_def)

lemma exec_Cons_ok: "exec (c # cs) s = (None, s') \<longleftrightarrow> (\<exists>t. c s = (None, t) \<and> exec cs t = (None, s'))"
  by (cases "c s") (auto split: option.splits)

lemma exec_append_ok:
  "exec (cs @ ds) s = (None, s') \<longleftrightarrow> (\<exists>t. exec cs s = (None, t) \<and> exec ds t = (None, s'))"
proof (induction cs arbitrary: s)
  case Nil
  then show ?case by simp
next
  case (Cons c cs)
  show ?case
  proof (cases "c s")
    case (Pair r t)
    then show ?thesis using Cons.IH [of t] by (cases r) auto
  qed
qed

lemma exec_fail:
  "exec cs s = (Some e, s') \<Longrightarrow>
     \<exists>pre c post t. cs = pre @ c # post \<and> exec pre s = (None, t) \<and> c t = (Some e, s')"
proof (induction cs arbitrary: s)
  case Nil
  then show ?case by simp
next
  case (Cons c cs)
  show ?case
  proof (cases "c s")
    case (Pair r t)
    show ?thesis
    proof (cases r)
      case None
      with Pair Cons.prems have "exec cs t = (Some e, s')" by simp
      from Cons.IH [OF this] obtain pre d post u
        where "cs = pre @ d # post" "exec pre t = (None, u)" "d u = (Some e, s')" by blast
      then have "c # cs = (c # pre) @ d # post \<and> exec (c # pre) s = (None, u) \<and> d u = (Some e, s')"
        using Pair None by simp
      then show ?thesis by blast
    next
      case (Some e')
      with Pair Cons.prems have "c # cs = [] @ c # cs \<and> exec [] s = (None, s) \<and> c s = (Some e, s')"
        by simp
      then show ?thesis by blast
    qed
  qed
qed

lemma import_module_ok:
  assumes "import_module w m s = (Inr b, s')"
  shows "ns s' = ns s \<and> stores s' = stores s \<and> initialised s' = initialised s \<and>
     m \<in> set (loaded s') \<and> set (loaded s) \<subseteq> set (loaded s') \<and>
     (b \<longleftrightarrow> m \<notin> set (loaded s))"
proof (cases "m \<in> set (loaded s)")
  case True
  with assms have "s' = s\<lparr>events := events s @ [EImport m]\<rparr>" "b = False"
    by (simp_all add: import_module_def)
  with True show ?thesis by auto
next
  case False
  show ?thesis
  proof (cases "exec_module w m")
    case None
    with False assms have "b = True" "ns s' = ns s" "stores s' = stores s"
      "initialised s' = initialised s" "m \<in> set (loaded s')" "set (loaded s) \<subseteq> set (loaded s')"
      by (auto simp: import_module_def Let_def)
    with False show ?thesis by simp
  next
    case (Some e)
    with False assms show ?thesis by (simp add: import_module_def Let_def)
  qed
qed

lemma import_module_fail:
  assumes "import_module w m s = (Inl e, s')"
  shows "exec_module w m = Some e \<and> m \<notin> set (loaded s) \<and> ns s' = ns s \<and>
     stores s' = stores s \<and> initialised s' = initialised s \<and>
     events s' \<noteq> [] \<and> last (events s') = ELoad m"
proof (cases "m \<in> set (loaded s)")
  case True
  with assms show ?thesis by (simp add: import_module_def)
next
  case False
  with assms show ?thesis
    by (cases "exec_module w m") (auto simp: import_module_def Let_def)
qed

lemma import_submodule_ok:
  assumes "import_submodule w c s = (None, s')"
  shows "initialised s' = initialised s \<and>
     submodule c \<in> set (loaded s') \<and> set (loaded s) \<subseteq> set (loaded s') \<and>
     ns s' = (if submodule c \<in> set (loaded s) then ns s
              else AList.update c (VModule (submodule c)) (ns s)) \<and>
     stores s' = (if submodule c \<in> set (loaded s) then stores s
                  else stores s @ [(c, VModule (submodule c))])"
proof -
  obtain r t where rt: "import_module w (submodule c) s = (r, t)"
    by (cases "import_module w (submodule c) s")
  with assms obtain b where b: "r = Inr b"
    and s': "s' = (if b then bind_name c (VModule (submodule c)) t else t)"
    by (cases r) (simp_all add: import_submodule_def)
  from import_module_ok [OF rt [unfolded b]] s' show ?thesis
    by (cases b) simp_all
qed

lemma import_submodule_fail:
  assumes "import_submodule w c s = (Some e, s')"
  shows "exec_module w (submodule c) = Some e \<and> submodule c \<notin> set (loaded s) \<and>
     ns s' = ns s \<and> stores s' = stores s \<and> initialised s' = initialised s \<and>
     events s' \<noteq> [] \<and> last (events s') = ELoad (submodule c)"
proof -
  obtain r t where rt: "import_module w (submodule c) s = (r, t)"
    by (cases "import_module w (submodule c) s")
  with assms have "r = Inl e" "t = s'"
    by (cases r; simp add: import_submodule_def)+
  with rt import_module_fail show ?thesis by blast
qed

lemma import_dotted_ok:
  assumes "import_dotted w m s = (None, s')"
  shows "initialised s' = initialised s \<and>
     m \<in> set (loaded s') \<and> set (loaded s) \<subseteq> set (loaded s') \<and>
     ns s' = AList.update (top_name m) (VModule (top_name m)) (ns s) \<and>
     stores s' = stores s @ [(top_name m, VModule (top_name m))]"
proof -
  obtain r t where rt: "import_module w m s = (r, t)"
    by (cases "import_module w m s")
  with assms obtain b where b: "r = Inr b"
    and s': "s' = bind_name (top_name m) (VModule (top_name m)) t"
    by (cases r) (simp_all add: import_dotted_def)
  from import_module_ok [OF rt [unfolded b]] s' show ?thesis by simp
qed

lemma import_dotted_fail:
  assumes "import_dotted w m s = (Some e, s')"
  shows "exec_module w m = Some e \<and> m \<notin> set (loaded s) \<and>
     ns s' = ns s \<and> stores s' = stores s \<and> initialised s' = initialised s \<and>
     events s' \<noteq> [] \<and> last (events s') = ELoad m"
proof -
  obtain r t where rt: "import_module w m s = (r, t)"
    by (cases "import_module w m s")
  with assms have "r = Inl e" "t = s'"
    by (cases r; simp add: import_dotted_def)+
  with rt import_module_fail show ?thesis by blast
qed

lemma bind_all_fields [simp]:
  "loaded (bind_all xs s) = loaded s"
  "events (bind_all xs s) = events s"
  "initialised (bind_all xs s) = initialised s"
  "stores (bind_all xs s) = stores s @ xs"
  by (induction xs arbitrary: s) auto

lemma bind_all_frame:
  "n \<notin> fst ` set xs \<Longrightarrow> map_of (ns (bind_all xs s)) n = map_of (ns s) n"
  by (induction xs arbitrary: s) (auto simp: update_conv')

lemma bind_all_keys: "fst ` set (ns (bind_all xs s)) = fst ` set (ns s) \<union> fst ` set xs"
proof (induction xs arbitrary: s)
  case Nil
  then show ?case by simp
next
  case (Cons x xs)
  obtain m u where x: "x = (m, u)" by (cases x)
  have "fst ` set (ns (bind_all xs (bind_name m u s))) =
      fst ` set (ns (bind_name m u s)) \<union> fst ` set xs"
    by (rule Cons.IH)
  then show ?case using x by (simp add: dom_update)
qed

lemma bind_all_distinct:
  "distinct (map fst (ns s)) \<Longrightarrow> distinct (map fst (ns (bind_all xs s)))"
  by (induction xs arbitrary: s) (auto simp: distinct_update)

lemma bind_all_lookup:
  "distinct (map fst xs) \<Longrightarrow> (n, v) \<in> set xs \<Longrightarrow> map_of (ns (bind_all xs s)) n = Some v"
proof (induction xs arbitrary: s)
  case Nil
  then show ?case by simp
next
  case (Cons x xs)
  obtain m u where x: "x = (m, u)" by (cases x)
  show ?case
  proof (cases "(n, v) \<in> set xs")
    case True
    with Cons x show ?thesis by simp
  next
    case False
    with Cons.prems x have "m = n" "u = v" "n \<notin> fst ` set xs" by auto
    then show ?thesis using x by (simp add: bind_all_frame update_conv')
  qed
qed

lemma from_import_star_ok:
  assumes "from_import_star w c s = (None, s')"
  shows "\<exists>t. import_submodule w c s = (None, t) \<and> s' = bind_all (star_names w (submodule c)) t"
proof -
  obtain r t where rt: "import_submodule w c s = (r, t)" by (cases "import_submodule w c s")
  with assms show ?thesis by (cases r) (simp_all add: from_import_star_def)
qed

lemma from_import_star_fail:
  assumes "from_import_star w c s = (Some e, s')"
  shows "import_submodule w c s = (Some e, s')"
proof -
  obtain r t where rt: "import_submodule w c s = (r, t)" by (cases "import_submodule w c s")
  with assms show ?thesis by (cases r) (simp_all add: from_import_star_def)
qed

lemma from_package_import_ok:
  assumes "from_package_import w c s = (None, s')"
  shows "(\<exists>v. map_of (ns s) c = Some v \<and> s' = bind_name c v s) \<or>
         (map_of (ns s) c = None \<and>
          (\<exists>t. import_submodule w c s = (None, t) \<and> s' = bind_name c (VModule (submodule c)) t))"
proof (cases "map_of (ns s) c")
  case None
  obtain r t where rt: "import_submodule w c s = (r, t)" by (cases "import_submodule w c s")
  with assms None show ?thesis by (cases r) (simp_all add: from_package_import_def)
next
  case (Some v)
  with assms show ?thesis by (simp add: from_package_import_def)
qed

lemma from_package_import_fail:
  assumes "from_package_import w c s = (Some e, s')"
  shows "import_submodule w c s = (Some e, s')"
proof (cases "map_of (ns s) c")
  case None
  obtain r t where rt: "import_submodule w c s = (r, t)" by (cases "import_submodule w c s")
  with assms None show ?thesis by (cases r) (simp_all add: from_package_import_def)
next
  case (Some v)
  with assms show ?thesis by (simp add: from_package_import_def)
qed

lemma import_names_one_ok:
  "import_names w m [(a, b)] t = (None, s') \<longleftrightarrow>
     (\<exists>v. attr_of w (VModule m) a = Some v \<and> s' = bind_name b v t)"
  by (cases "attr_of w (VModule m) a") auto

lemma import_names_two_ok:
  "import_names w m [(a, b), (a', b')] t = (None, s') \<longleftrightarrow>
     (\<exists>v v'. attr_of w (VModule m) a = Some v \<and> attr_of w (VModule m) a' = Some v' \<and>
        s' = bind_name b' v' (bind_name b v t))"
  by (cases "attr_of w (VModule m) a"; cases "attr_of w (VModule m) a'") auto

lemma import_names_fail:
  "import_names w m names t = (Some e, s') \<Longrightarrow>
     \<exists>a. attr_of w (VModule m) a = None \<and> e = ImportError m a \<and> events s' = events t \<and>
       initialised s' = initialised t"
proof (induction names arbitrary: t)
  case Nil
  then show ?case by simp
next
  case (Cons x names)
  obtain a b where x: "x = (a, b)" by (cases x)
  show ?case
  proof (cases "attr_of w (VModule m) a")
    case None
    with Cons.prems x show ?thesis by auto
  next
    case (Some v)
    with Cons.prems x have "import_names w m names (bind_name b v t) = (Some e, s')" by simp
    from Cons.IH [OF this] show ?thesis by simp
  qed
qed

lemma from_import_ok:
  assumes "from_import w c names s = (None, s')"
  shows "\<exists>t. import_submodule w c s = (None, t) \<and> import_names w (submodule c) names t = (None, s')"
proof -
  obtain r t where rt: "import_submodule w c s = (r, t)" by (cases "import_submodule w c s")
  with assms show ?thesis by (cases r) (simp_all add: from_import_def)
qed

lemma from_import_fail:
  assumes "from_import w c names s = (Some e, s')"
  shows "import_submodule w c s = (Some e, s') \<or>
     (\<exists>t. import_submodule w c s = (None, t) \<and> import_names w (submodule c) names t = (Some e, s'))"
proof -
  obtain r t where rt: "import_submodule w c s = (r, t)" by (cases "import_submodule w c s")
  with assms show ?thesis by (cases r) (simp_all add: from_import_def)
qed

lemma load_bob_library_stmt_cases:
  assumes "load_bob_library_stmt w s = (r, s')"
    and "map_of (ns s) ''bob'' = Some b" and "map_of (ns s) ''__file__'' = Some p"
  shows "(attr_of w b ''extension'' = None \<and> r = Some (AttributeError b ''extension'') \<and> s' = s) \<or>
     (\<exists>x. attr_of w b ''extension'' = Some x \<and>
        ((attr_of w x ''load_bob_library'' = None \<and> r = Some (AttributeError x ''load_bob_library'') \<and> s' = s) \<or>
         (\<exists>f. attr_of w x ''load_bob_library'' = Some f \<and>
            s' = s\<lparr>events := events s @ [ECall f [VStr ''bob.ip.gabor'', p]]\<rparr> \<and>
            (case call_ext w f [VStr ''bob.ip.gabor'', p] of Inl e \<Rightarrow> r = Some e | Inr _ \<Rightarrow> r = None))))"
proof (cases "attr_of w b ''extension''")
  case None
  with assms show ?thesis by (simp add: load_bob_library_stmt_def load_name_def load_attr_def)
next
  case (Some x)
  show ?thesis
  proof (cases "attr_of w x ''load_bob_library''")
    case None
    with Some assms show ?thesis
      by (simp add: load_bob_library_stmt_def load_name_def load_attr_def)
  next
    case f: (Some f)
    with Some assms show ?thesis
      by (cases "call_ext w f [VStr ''bob.ip.gabor'', p]")
        (auto simp: load_bob_library_stmt_def load_name_def load_attr_def call_external_def)
  qed
qed

lemma preamble_chain:
  assumes "exec (preamble w) s = (None, p)"
  shows "\<exists>t1 t2 t3 t4 t5 t6 t7 t8 t9.
     import_dotted w ''bob.io.base'' s = (None, t1) \<and>
     import_dotted w ''bob.sp'' t1 = (None, t2) \<and>
     import_dotted w ''bob.extension'' t2 = (None, t3) \<and>
     load_bob_library_stmt w t3 = (None, t4) \<and>
     from_import_star w ''_library'' t4 = (None, t5) \<and>
     from_package_import w ''version'' t5 = (None, t6) \<and>
     from_import w ''version'' [(''module'', ''__version__'')] t6 = (None, t7) \<and>
     from_import w ''version'' [(''api'', ''__api_version__'')] t7 = (None, t8) \<and>
     from_import w ''auxiliar'' [(''load_jets'', ''load_jets''), (''save_jets'', ''save_jets'')] t8
       = (None, t9) \<and>
     p = bind_name ''get_config'' (VFunc pkg_name ''get_config'') t9"
  using assms by (simp add: preamble_def exec_Cons_ok def_get_config_def del: exec.simps(2)) blast

lemma top_names [simp]:
  "top_name ''bob.io.base'' = ''bob''" "top_name ''bob.sp'' = ''bob''"
  "top_name ''bob.extension'' = ''bob''"
  by (simp_all add: top_name_def)

lemma load_bob_library_stmt_ok:
  assumes "load_bob_library_stmt w s = (None, s')"
  shows "ns s' = ns s \<and> stores s' = stores s \<and> loaded s' = loaded s \<and>
    initialised s' = initialised s"
proof -
  have *: "ns (snd (load_bob_library_stmt w s)) = ns s \<and>
      stores (snd (load_bob_library_stmt w s)) = stores s \<and>
      loaded (snd (load_bob_library_stmt w s)) = loaded s \<and>
      initialised (snd (load_bob_library_stmt w s)) = initialised s"
    by (simp add: load_bob_library_stmt_def call_external_def split: sum.split prod.split)
  from assms have "s' = snd (load_bob_library_stmt w s)" by simp
  with * show ?thesis by simp
qed

lemma import_submodule_maybe:
  assumes "import_submodule w c s = (None, s')"
  shows "\<exists>b. b = (submodule c \<notin> set (loaded s)) \<and>
     ns s' = maybe b c (ns s) \<and> stores s' = stores s @ maybe_store b c"
  using import_submodule_ok [OF assms]
  by (intro exI [of _ "submodule c \<notin> set (loaded s)"]) (simp add: maybe_def maybe_store_def)

lemma preamble_effect:
  assumes "exec (preamble w) s = (None, p)"
  shows "\<exists>b5 b6 b7 b8 b9 v6 vm va f g u.
     attr_of w (VModule (submodule ''version'')) ''module'' = Some vm \<and>
     attr_of w (VModule (submodule ''version'')) ''api'' = Some va \<and>
     attr_of w (VModule (submodule ''auxiliar'')) ''load_jets'' = Some f \<and>
     attr_of w (VModule (submodule ''auxiliar'')) ''save_jets'' = Some g \<and>
     ns u = maybe b5 ''_library''
       (AList.update ''bob'' (VModule ''bob'') (AList.update ''bob'' (VModule ''bob'')
         (AList.update ''bob'' (VModule ''bob'') (ns s)))) \<and>
     stores u = stores s @ [(''bob'', VModule ''bob''), (''bob'', VModule ''bob''),
        (''bob'', VModule ''bob'')] @ maybe_store b5 ''_library'' \<and>
     (map_of (ns (bind_all (star_names w (submodule ''_library'')) u)) ''version'' = Some v6 \<and> \<not> b6 \<or>
      map_of (ns (bind_all (star_names w (submodule ''_library'')) u)) ''version'' = None \<and>
        v6 = VModule (submodule ''version'')) \<and>
     ns p = AList.update ''get_config'' (VFunc pkg_name ''get_config'')
       (AList.update ''save_jets'' g (AList.update ''load_jets'' f (maybe b9 ''auxiliar''
       (AList.update ''__api_version__'' va (maybe b8 ''version''
       (AList.update ''__version__'' vm (maybe b7 ''version''
       (AList.update ''version'' v6 (maybe b6 ''version''
       (ns (bind_all (star_names w (submodule ''_library'')) u))))))))))) \<and>
     stores p = stores u @ star_names w (submodule ''_library'') @ maybe_store b6 ''version'' @
       [(''version'', v6)] @ maybe_store b7 ''version'' @ [(''__version__'', vm)] @
       maybe_store b8 ''version'' @ [(''__api_version__'', va)] @ maybe_store b9 ''auxiliar'' @
       [(''load_jets'', f), (''save_jets'', g), (''get_config'', VFunc pkg_name ''get_config'')] \<and>
     (b6 \<longrightarrow> \<not> b7) \<and> \<not> b8"
proof -
  from preamble_chain [OF assms] obtain t1 t2 t3 t4 t5 t6 t7 t8 t9 where
    c1: "import_dotted w ''bob.io.base'' s = (None, t1)" and
    c2: "import_dotted w ''bob.sp'' t1 = (None, t2)" and
    c3: "import_dotted w ''bob.extension'' t2 = (None, t3)" and
    c4: "load_bob_library_stmt w t3 = (None, t4)" and
    c5: "from_import_star w ''_library'' t4 = (None, t5)" and
    c6: "from_package_import w ''version'' t5 = (None, t6)" and
    c7: "from_import w ''version'' [(''module'', ''__version__'')] t6 = (None, t7)" and
    c8: "from_import w ''version'' [(''api'', ''__api_version__'')] t7 = (None, t8)" and
    c9: "from_import w ''auxiliar'' [(''load_jets'', ''load_jets''), (''save_jets'', ''save_jets'')] t8
       = (None, t9)" and
    p: "p = bind_name ''get_config'' (VFunc pkg_name ''get_config'') t9"
    by blast
  have n3: "ns t4 = AList.update ''bob'' (VModule ''bob'') (AList.update ''bob'' (VModule ''bob'')
         (AList.update ''bob'' (VModule ''bob'') (ns s)))"
    and s3: "stores t4 = stores s @ [(''bob'', VModule ''bob''), (''bob'', VModule ''bob''),
        (''bob'', VModule ''bob'')]"
    using import_dotted_ok [OF c1] import_dotted_ok [OF c2] import_dotted_ok [OF c3]
      load_bob_library_stmt_ok [OF c4] by simp_all
  from from_import_star_ok [OF c5] obtain u where
    u: "import_submodule w ''_library'' t4 = (None, u)" and
    t5: "t5 = bind_all (star_names w (submodule ''_library'')) u" by blast
  from import_submodule_maybe [OF u] obtain b5 where
    b5: "ns u = maybe b5 ''_library'' (ns t4)" "stores u = stores t4 @ maybe_store b5 ''_library''"
    by blast
  have "\<exists>b6 v6. (map_of (ns t5) ''version'' = Some v6 \<and> \<not> b6 \<or>
      map_of (ns t5) ''version'' = None \<and> v6 = VModule (submodule ''version'')) \<and>
      ns t6 = AList.update ''version'' v6 (maybe b6 ''version'' (ns t5)) \<and>
      stores t6 = stores t5 @ maybe_store b6 ''version'' @ [(''version'', v6)] \<and>
      (b6 \<longrightarrow> submodule ''version'' \<in> set (loaded t6))"
    using from_package_import_ok [OF c6]
  proof (elim disjE exE conjE)
    fix v assume "map_of (ns t5) ''version'' = Some v" "t6 = bind_name ''version'' v t5"
    then show ?thesis
      by (intro exI [of _ False] exI [of _ v]) (simp add: maybe_def maybe_store_def)
  next
    fix t assume n: "map_of (ns t5) ''version'' = None"
      and i: "import_submodule w ''version'' t5 = (None, t)"
      and t6: "t6 = bind_name ''version'' (VModule (submodule ''version'')) t"
    from import_submodule_maybe [OF i] obtain b where
      "ns t = maybe b ''version'' (ns t5)" "stores t = stores t5 @ maybe_store b ''version''"
      by blast
    moreover from import_submodule_ok [OF i] have "submodule ''version'' \<in> set (loaded t)"
      by simp
    ultimately show ?thesis using n t6
      by (intro exI [of _ b] exI [of _ "VModule (submodule ''version'')"]) simp
  qed
  then obtain b6 v6 where
    v6: "map_of (ns t5) ''version'' = Some v6 \<and> \<not> b6 \<or>
      map_of (ns t5) ''version'' = None \<and> v6 = VModule (submodule ''version'')" and
    n6: "ns t6 = AList.update ''version'' v6 (maybe b6 ''version'' (ns t5))" and
    s6: "stores t6 = stores t5 @ maybe_store b6 ''version'' @ [(''version'', v6)]" and
    l6: "b6 \<longrightarrow> submodule ''version'' \<in> set (loaded t6)"
    by blast
  from from_import_ok [OF c7, unfolded import_names_one_ok] obtain u7 vm where
    u7: "import_submodule w ''version'' t6 = (None, u7)" and
    vm: "attr_of w (VModule (submodule ''version'')) ''module'' = Some vm" and
    t7: "t7 = bind_name ''__version__'' vm u7"
    by blast
  from import_submodule_maybe [OF u7] obtain b7 where
    b7: "ns u7 = maybe b7 ''version'' (ns t6)" "stores u7 = stores t6 @ maybe_store b7 ''version''"
    and f7: "b7 = (submodule ''version'' \<notin> set (loaded t6))"
    by blast
  from import_submodule_ok [OF u7] t7 have l7: "submodule ''version'' \<in> set (loaded t7)"
    by simp
  from from_import_ok [OF c8, unfolded import_names_one_ok] obtain u8 va where
    u8: "import_submodule w ''version'' t7 = (None, u8)" and
    va: "attr_of w (VModule (submodule ''version'')) ''api'' = Some va" and
    t8: "t8 = bind_name ''__api_version__'' va u8"
    by blast
  from import_submodule_maybe [OF u8] obtain b8 where
    b8: "ns u8 = maybe b8 ''version'' (ns t7)" "stores u8 = stores t7 @ maybe_store b8 ''version''"
    and f8: "b8 = (submodule ''version'' \<notin> set (loaded t7))"
    by blast
  from l6 f7 f8 l7 have fr: "b6 \<longrightarrow> \<not> b7" "\<not> b8" by simp_all
  from from_import_ok [OF c9, unfolded import_names_two_ok] obtain u9 f g where
    u9: "import_submodule w ''auxiliar'' t8 = (None, u9)" and
    f: "attr_of w (VModule (submodule ''auxiliar'')) ''load_jets'' = Some f" and
    g: "attr_of w (VModule (submodule ''auxiliar'')) ''save_jets'' = Some g" and
    t9: "t9 = bind_name ''save_jets'' g (bind_name ''load_jets'' f u9)"
    by blast
  from import_submodule_maybe [OF u9] obtain b9 where
    b9: "ns u9 = maybe b9 ''auxiliar'' (ns t8)" "stores u9 = stores t8 @ maybe_store b9 ''auxiliar''"
    by blast
  show ?thesis
    apply (rule exI [of _ b5], rule exI [of _ b6], rule exI [of _ b7], rule exI [of _ b8],
        rule exI [of _ b9], rule exI [of _ v6], rule exI [of _ vm], rule exI [of _ va],
        rule exI [of _ f], rule exI [of _ g], rule exI [of _ u])
    using vm va f g b5 n3 s3 v6 n6 s6 b7 b8 b9 fr
    apply (simp add: p t9 t8 t7 t5)
    done
qed

lemma maybe_lookup:
  "map_of (maybe b c al) n = (if b \<and> n = c then Some (VModule (submodule c)) else map_of al n)"
  by (simp add: maybe_def update_conv')

lemma maybe_keys: "fst ` set (maybe b c al) = (if b then insert c (fst ` set al) else fst ` set al)"
  by (simp add: maybe_def dom_update)

lemma maybe_distinct: "distinct (map fst al) \<Longrightarrow> distinct (map fst (maybe b c al))"
  by (simp add: maybe_def distinct_update)

lemma init_ns_distinct: "distinct (map fst (init_ns w))"
  by (simp add: init_ns_def)

lemma preamble_distinct:
  assumes "exec (preamble w) s = (None, p)" and "distinct (map fst (ns s))"
  shows "distinct (map fst (ns p))"
proof -
  from preamble_effect [OF assms(1)] obtain b5 b6 b7 b8 b9 v6 vm va f g u where
    u: "ns u = maybe b5 ''_library''
       (AList.update ''bob'' (VModule ''bob'') (AList.update ''bob'' (VModule ''bob'')
         (AList.update ''bob'' (VModule ''bob'') (ns s))))" and
    p: "ns p = AList.update ''get_config'' (VFunc pkg_name ''get_config'')
       (AList.update ''save_jets'' g (AList.update ''load_jets'' f (maybe b9 ''auxiliar''
       (AList.update ''__api_version__'' va (maybe b8 ''version''
       (AList.update ''__version__'' vm (maybe b7 ''version''
       (AList.update ''version'' v6 (maybe b6 ''version''
       (ns (bind_all (star_names w (submodule ''_library'')) u)))))))))))"
    by blast
  from assms(2) u have "distinct (map fst (ns u))"
    by (simp add: maybe_distinct distinct_update)
  then have "distinct (map fst (ns (bind_all (star_names w (submodule ''_library'')) u)))"
    by (rule bind_all_distinct)
  then show ?thesis unfolding p
    by (intro distinct_update maybe_distinct)
qed

lemma import_package_ok:
  assumes "import_package w s = (None, s')" and "\<not> initialised s"
  shows "\<exists>p. exec (preamble w) (fresh_module w s) = (None, p) \<and>
     s' = (bind_name ''__all__'' (VList (map VStr (public_names p))) p)\<lparr>initialised := True\<rparr>"
proof -
  obtain r t where rt: "exec (module_body w) (fresh_module w s) = (r, t)"
    by (cases "exec (module_body w) (fresh_module w s)")
  with assms have r: "r = None" and s': "s' = t\<lparr>initialised := True\<rparr>"
    by (cases r; simp add: import_package_def)+
  from rt r obtain p where "exec (preamble w) (fresh_module w s) = (None, p)"
    and "assign_all p = (None, t)"
    by (auto simp: module_body_def exec_append_ok exec_Cons_ok simp del: exec.simps(2))
  with s' show ?thesis by (auto simp: assign_all_def)
qed

lemma public_names_set:
  "set (public_names p) = {n \<in> fst ` set (ns p). \<not> startswith n ''_''}"
  by (auto simp: public_names_def dir_names_def)

lemma public_names_sorted: "sorted (public_names p)"
  by (simp add: public_names_def dir_names_def sorted_wrt_filter)

lemma public_names_distinct: "distinct (map fst (ns p)) \<Longrightarrow> distinct (public_names p)"
  by (simp add: public_names_def dir_names_def)

lemma preamble_lookups:
  assumes "exec (preamble w) s = (None, p)" and "ns s = init_ns w"
  shows "\<exists>vm va f g.
     attr_of w (VModule (submodule ''version'')) ''module'' = Some vm \<and>
     attr_of w (VModule (submodule ''version'')) ''api'' = Some va \<and>
     attr_of w (VModule (submodule ''auxiliar'')) ''load_jets'' = Some f \<and>
     attr_of w (VModule (submodule ''auxiliar'')) ''save_jets'' = Some g \<and>
     map_of (ns p) ''__version__'' = Some vm \<and>
     map_of (ns p) ''__api_version__'' = Some va \<and>
     map_of (ns p) ''load_jets'' = Some f \<and>
     map_of (ns p) ''save_jets'' = Some g \<and>
     map_of (ns p) ''get_config'' = Some (VFunc pkg_name ''get_config'') \<and>
     ''bob'' \<in> fst ` set (ns p) \<and> ''version'' \<in> fst ` set (ns p) \<and>
     (''bob'' \<notin> fst ` set (star_names w (submodule ''_library'')) \<longrightarrow>
        map_of (ns p) ''bob'' = Some (VModule ''bob'')) \<and>
     (''__name__'' \<notin> fst ` set (star_names w (submodule ''_library'')) \<longrightarrow>
        map_of (ns p) ''__name__'' = Some (VStr pkg_name)) \<and>
     (''version'' \<notin> fst ` set (star_names w (submodule ''_library'')) \<longrightarrow>
        map_of (ns p) ''version'' = Some (VModule (submodule ''version'')))"
proof -
  let ?star = "star_names w (submodule ''_library'')"
  from preamble_effect [OF assms(1)] obtain b5 b6 b7 b8 b9 v6 vm va f g u where
    a: "attr_of w (VModule (submodule ''version'')) ''module'' = Some vm"
       "attr_of w (VModule (submodule ''version'')) ''api'' = Some va"
       "attr_of w (VModule (submodule ''auxiliar'')) ''load_jets'' = Some f"
       "attr_of w (VModule (submodule ''auxiliar'')) ''save_jets'' = Some g" and
    u: "ns u = maybe b5 ''_library''
       (AList.update ''bob'' (VModule ''bob'') (AList.update ''bob'' (VModule ''bob'')
         (AList.update ''bob'' (VModule ''bob'') (ns s))))" and
    v6: "map_of (ns (bind_all ?star u)) ''version'' = Some v6 \<and> \<not> b6 \<or>
      map_of (ns (bind_all ?star u)) ''version'' = None \<and> v6 = VModule (submodule ''version'')" and
    p: "ns p = AList.update ''get_config'' (VFunc pkg_name ''get_config'')
       (AList.update ''save_jets'' g (AList.update ''load_jets'' f (maybe b9 ''auxiliar''
       (AList.update ''__api_version__'' va (maybe b8 ''version''
       (AList.update ''__version__'' vm (maybe b7 ''version''
       (AList.update ''version'' v6 (maybe b6 ''version''
       (ns (bind_all ?star u)))))))))))"
    by blast
  have l1: "map_of (ns p) ''__version__'' = Some vm" "map_of (ns p) ''__api_version__'' = Some va"
    "map_of (ns p) ''load_jets'' = Some f" "map_of (ns p) ''save_jets'' = Some g"
    "map_of (ns p) ''get_config'' = Some (VFunc pkg_name ''get_config'')"
    by (simp_all add: p update_conv' maybe_lookup)
  have "''bob'' \<in> fst ` set (ns u)"
    by (simp add: u maybe_keys dom_update)
  then have k: "''bob'' \<in> fst ` set (ns p)" "''version'' \<in> fst ` set (ns p)"
    by (simp_all add: p dom_update maybe_keys bind_all_keys)
  have ub: "map_of (ns u) ''bob'' = Some (VModule ''bob'')"
    and un: "map_of (ns u) ''__name__'' = Some (VStr pkg_name)"
    and uv: "map_of (ns u) ''version'' = None"
    by (simp_all add: u maybe_lookup update_conv' assms(2) init_ns_def)
  have b: "map_of (ns p) ''bob'' = Some (VModule ''bob'')" if "''bob'' \<notin> fst ` set ?star"
    using bind_all_frame [OF that, of u] ub by (simp add: p update_conv' maybe_lookup)
  have n: "map_of (ns p) ''__name__'' = Some (VStr pkg_name)" if "''__name__'' \<notin> fst ` set ?star"
    using bind_all_frame [OF that, of u] un by (simp add: p update_conv' maybe_lookup)
  have v: "map_of (ns p) ''version'' = Some (VModule (submodule ''version''))"
    if "''version'' \<notin> fst ` set ?star"
  proof -
    from bind_all_frame [OF that, of u] uv v6 have "v6 = VModule (submodule ''version'')" by simp
    then show ?thesis by (simp add: p update_conv' maybe_lookup)
  qed
  from a l1 k b n v show ?thesis by blast
qed

lemma import_package_summary:
  assumes "import_package w s = (None, s')" and "\<not> initialised s"
  shows "exec (preamble w) (fresh_module w s) = (None, snd (exec (preamble w) (fresh_module w s)))"
    and "ns (fresh_module w s) = init_ns w"
    and "map_of (ns s') ''__all__'' =
      Some (VList (map VStr (public_names (snd (exec (preamble w) (fresh_module w s))))))"
    and "\<And>n. n \<noteq> ''__all__'' \<Longrightarrow>
      map_of (ns s') n = map_of (ns (snd (exec (preamble w) (fresh_module w s)))) n"
    and "fst ` set (ns s') =
      insert ''__all__'' (fst ` set (ns (snd (exec (preamble w) (fresh_module w s)))))"
    and "events s' = events (snd (exec (preamble w) (fresh_module w s)))"
    and "stores s' = stores (snd (exec (preamble w) (fresh_module w s))) @
      [(''__all__'', VList (map VStr (public_names (snd (exec (preamble w) (fresh_module w s))))))]"
    and "initialised s'"
proof -
  from import_package_ok [OF assms] obtain p where
    p: "exec (preamble w) (fresh_module w s) = (None, p)" and
    s': "s' = (bind_name ''__all__'' (VList (map VStr (public_names p))) p)\<lparr>initialised := True\<rparr>"
    by blast
  show "ns (fresh_module w s) = init_ns w"
    by (simp add: fresh_module_def)
  show "exec (preamble w) (fresh_module w s) = (None, snd (exec (preamble w) (fresh_module w s)))"
    "map_of (ns s') ''__all__'' =
      Some (VList (map VStr (public_names (snd (exec (preamble w) (fresh_module w s))))))"
    "\<And>n. n \<noteq> ''__all__'' \<Longrightarrow>
      map_of (ns s') n = map_of (ns (snd (exec (preamble w) (fresh_module w s)))) n"
    "fst ` set (ns s') =
      insert ''__all__'' (fst ` set (ns (snd (exec (preamble w) (fresh_module w s)))))"
    "events s' = events (snd (exec (preamble w) (fresh_module w s)))"
    "stores s' = stores (snd (exec (preamble w) (fresh_module w s))) @
      [(''__all__'', VList (map VStr (public_names (snd (exec (preamble w) (fresh_module w s))))))]"
    "initialised s'"
    by (simp_all add: p s' update_conv' dom_update)
qed

lemma map_of_keyI: "map_of al k = Some v \<Longrightarrow> k \<in> fst ` set al"
  by (rule image_eqI [of _ _ "(k, v)"]) (simp_all add: map_of_SomeD)

lemma get_config_eval:
  assumes "map_of (ns t) ''bob'' = Some b" and "attr_of w b ''extension'' = Some x"
    and "attr_of w x ''get_config'' = Some f" and "map_of (ns t) ''__name__'' = Some n"
    and "map_of (ns t) ''version'' = Some v" and "attr_of w v ''externals'' = Some ext"
    and "attr_of w v ''api'' = Some api"
  shows "get_config w t =
    (call_ext w f [n, ext, api], t\<lparr>events := events t @ [ECall f [n, ext, api]]\<rparr>)"
  using assms by (simp add: get_config_def load_name_def load_attr_def call_external_def)

lemma get_config_frame:
  "ns (snd (get_config w s)) = ns s" "stores (snd (get_config w s)) = stores s"
  "loaded (snd (get_config w s)) = loaded s" "initialised (snd (get_config w s)) = initialised s"
  by (simp_all add: get_config_def call_external_def split: sum.split)

lemma get_config_events:
  "events (snd (get_config w s)) = events s \<or>
   (\<exists>f a b c. events (snd (get_config w s)) = events s @ [ECall f [a, b, c]])"
  by (simp add: get_config_def call_external_def split: sum.split)

lemma call_value_frame:
  "ns (snd (call_value w f args s)) = ns s" "stores (snd (call_value w f args s)) = stores s"
  "loaded (snd (call_value w f args s)) = loaded s"
  "initialised (snd (call_value w f args s)) = initialised s"
  by (simp_all add: call_value_def call_external_def get_config_frame)

lemma w0_runs: "fst (import_package w0 s0) = None"
  by code_simp

lemma w0_result: "import_package w0 s0 = (None, snd (import_package w0 s0))"
  using w0_runs by (simp add: prod_eq_iff)

lemma s0_fresh: "\<not> initialised s0"
  by (simp add: s0_def)

lemma preamble_stores_hold:
  assumes "exec (preamble w) s = (None, p)" and "ns s = init_ns w" and "stores s = []"
    and d: "distinct (map fst (star_names w (submodule ''_library'')))"
    and x: "fst ` set (star_names w (submodule ''_library'')) \<inter>
      {''bob'', ''_library'', ''version'', ''__version__'', ''__api_version__'', ''auxiliar'',
       ''load_jets'', ''save_jets'', ''get_config'', ''__all__''} = {}"
    and nv: "(n, v) \<in> set (stores p)"
  shows "map_of (ns p) n = Some v \<and> n \<noteq> ''__all__''"
proof -
  let ?star = "star_names w (submodule ''_library'')"
  from preamble_effect [OF assms(1)] obtain b5 b6 b7 b8 b9 v6 vm va f g u where
    u: "ns u = maybe b5 ''_library''
       (AList.update ''bob'' (VModule ''bob'') (AList.update ''bob'' (VModule ''bob'')
         (AList.update ''bob'' (VModule ''bob'') (ns s))))" and
    su: "stores u = stores s @ [(''bob'', VModule ''bob''), (''bob'', VModule ''bob''),
        (''bob'', VModule ''bob'')] @ maybe_store b5 ''_library''" and
    v6: "map_of (ns (bind_all ?star u)) ''version'' = Some v6 \<and> \<not> b6 \<or>
      map_of (ns (bind_all ?star u)) ''version'' = None \<and> v6 = VModule (submodule ''version'')" and
    p: "ns p = AList.update ''get_config'' (VFunc pkg_name ''get_config'')
       (AList.update ''save_jets'' g (AList.update ''load_jets'' f (maybe b9 ''auxiliar''
       (AList.update ''__api_version__'' va (maybe b8 ''version''
       (AList.update ''__version__'' vm (maybe b7 ''version''
       (AList.update ''version'' v6 (maybe b6 ''version''
       (ns (bind_all ?star u)))))))))))" and
    sp: "stores p = stores u @ ?star @ maybe_store b6 ''version'' @
       [(''version'', v6)] @ maybe_store b7 ''version'' @ [(''__version__'', vm)] @
       maybe_store b8 ''version'' @ [(''__api_version__'', va)] @ maybe_store b9 ''auxiliar'' @
       [(''load_jets'', f), (''save_jets'', g), (''get_config'', VFunc pkg_name ''get_config'')]"
    by blast
  from x have nx: "''bob'' \<notin> fst ` set ?star" "''_library'' \<notin> fst ` set ?star"
    "''version'' \<notin> fst ` set ?star" "''__version__'' \<notin> fst ` set ?star"
    "''__api_version__'' \<notin> fst ` set ?star" "''auxiliar'' \<notin> fst ` set ?star"
    "''load_jets'' \<notin> fst ` set ?star" "''save_jets'' \<notin> fst ` set ?star"
    "''get_config'' \<notin> fst ` set ?star" "''__all__'' \<notin> fst ` set ?star"
    by auto
  have uv: "map_of (ns u) ''version'' = None"
    by (simp add: u maybe_lookup update_conv' assms(2) init_ns_def)
  with bind_all_frame [OF nx(3), of u] v6 have v6': "v6 = VModule (submodule ''version'')"
    by simp
  have ub: "map_of (ns (bind_all ?star u)) ''bob'' = Some (VModule ''bob'')"
    using bind_all_frame [OF nx(1), of u] by (simp add: u maybe_lookup update_conv')
  have ul: "b5 \<Longrightarrow> map_of (ns (bind_all ?star u)) ''_library'' = Some (VModule (submodule ''_library''))"
    using bind_all_frame [OF nx(2), of u] by (simp add: u maybe_lookup update_conv')
  have sl: "set (stores u) \<subseteq> {(''bob'', VModule ''bob''), (''_library'', VModule (submodule ''_library''))}"
    and sl': "\<not> b5 \<Longrightarrow> set (stores u) \<subseteq> {(''bob'', VModule ''bob'')}"
    by (auto simp: su assms(3) maybe_store_def)
  have ms: "\<And>b c. set (maybe_store b c) = (if b then {(c, VModule (submodule c))} else {})"
    by (simp add: maybe_store_def)
  from nv have "(n, v) \<in> set (stores u) \<union> set ?star \<union>
      (set (maybe_store b6 ''version'') \<union> set (maybe_store b7 ''version'') \<union>
       set (maybe_store b8 ''version'')) \<union> set (maybe_store b9 ''auxiliar'') \<union>
      {(''version'', v6), (''__version__'', vm), (''__api_version__'', va),
       (''load_jets'', f), (''save_jets'', g), (''get_config'', VFunc pkg_name ''get_config'')}"
    unfolding sp set_append by (simp add: disj_ac)
  then consider
    (pre) "(n, v) \<in> set (stores u)" |
    (star) "(n, v) \<in> set ?star" |
    (ver) "(n, v) \<in> set (maybe_store b6 ''version'')" |
    (ver') "(n, v) \<in> set (maybe_store b7 ''version'')" |
    (ver'') "(n, v) \<in> set (maybe_store b8 ''version'')" |
    (aux) "(n, v) \<in> set (maybe_store b9 ''auxiliar'')" |
    (rest) "(n, v) \<in> {(''version'', v6), (''__version__'', vm), (''__api_version__'', va),
       (''load_jets'', f), (''save_jets'', g), (''get_config'', VFunc pkg_name ''get_config'')}"
    by (elim UnE) 
  then show ?thesis
  proof cases
    case pre
    show ?thesis
    proof (cases b5)
      case True
      from pre sl have "n = ''bob'' \<and> v = VModule ''bob'' \<or>
          n = ''_library'' \<and> v = VModule (submodule ''_library'')"
        by auto
      then show ?thesis
      proof
        assume "n = ''bob'' \<and> v = VModule ''bob''"
        with ub show ?thesis by (simp add: p update_conv' maybe_lookup)
      next
        assume "n = ''_library'' \<and> v = VModule (submodule ''_library'')"
        with ul [OF True] show ?thesis by (simp add: p update_conv' maybe_lookup)
      qed
    next
      case False
      from pre sl' [OF False] have "n = ''bob'' \<and> v = VModule ''bob''"
        by auto
      with ub show ?thesis by (simp add: p update_conv' maybe_lookup)
    qed
  next
    case star
    then have "n \<in> fst ` set ?star" by (rule image_eqI [of _ _ "(n, v)", rotated]) simp
    with nx have ne: "n \<noteq> ''bob''" "n \<noteq> ''_library''" "n \<noteq> ''version''" "n \<noteq> ''__version__''"
      "n \<noteq> ''__api_version__''" "n \<noteq> ''auxiliar''" "n \<noteq> ''load_jets''" "n \<noteq> ''save_jets''"
      "n \<noteq> ''get_config''" "n \<noteq> ''__all__''"
      by (metis)+
    from bind_all_lookup [OF d star] ne show ?thesis
      by (simp add: p update_conv' maybe_lookup)
  next
    case ver
    then have "n = ''version'' \<and> v = VModule (submodule ''version'')"
      by (simp add: ms split: if_splits)
    then show ?thesis by (simp add: p v6' update_conv' maybe_lookup)
  next
    case ver'
    then have "n = ''version'' \<and> v = VModule (submodule ''version'')"
      by (simp add: ms split: if_splits)
    then show ?thesis by (simp add: p v6' update_conv' maybe_lookup)
  next
    case ver''
    then have "n = ''version'' \<and> v = VModule (submodule ''version'')"
      by (simp add: ms split: if_splits)
    then show ?thesis by (simp add: p v6' update_conv' maybe_lookup)
  next
    case aux
    then have "b9 \<and> n = ''auxiliar'' \<and> v = VModule (submodule ''auxiliar'')"
      by (simp add: ms split: if_splits)
    then show ?thesis by (simp add: p update_conv' maybe_lookup)
  next
    case rest
    then have "n = ''version'' \<and> v = v6 \<or> n = ''__version__'' \<and> v = vm \<or>
      n = ''__api_version__'' \<and> v = va \<or> n = ''load_jets'' \<and> v = f \<or>
      n = ''save_jets'' \<and> v = g \<or> n = ''get_config'' \<and> v = VFunc pkg_name ''get_config''"
      by simp
    then show ?thesis
      by (elim disjE conjE) (simp_all add: p v6' update_conv' maybe_lookup)
  qed
qed

lemma w0_star:
  "distinct (map fst (star_names w0 (submodule ''_library'')))"
  "fst ` set (star_names w0 (submodule ''_library'')) \<inter>
      {''bob'', ''_library'', ''version'', ''__version__'', ''__api_version__'', ''auxiliar'',
       ''load_jets'', ''save_jets'', ''get_config'', ''__all__''} = {}"
  by (simp_all add: w0_def lib_names_def submodule_def pkg_name_def)

lemma w0_bob_stored: "(''bob'', VModule ''bob'') \<in> set (stores (snd (import_package w0 s0)))"
  by code_simp

subsection \<open>Runs and their effects\<close>

lemma exec_single: "exec [c] s = c s"
proof (cases "c s")
  case (Pair r t)
  then show ?thesis by (cases r) simp_all
qed

lemma exec_append:
  "exec (cs @ ds) s = (case exec cs s of (Some e, t) \<Rightarrow> (Some e, t) | (None, t) \<Rightarrow> exec ds t)"
proof (induction cs arbitrary: s)
  case Nil
  then show ?case by simp
next
  case (Cons c cs)
  show ?case
  proof (cases "c s")
    case (Pair r t)
    then show ?thesis using Cons.IH [of t] by (cases r) simp_all
  qed
qed

lemma executed_trans:
  assumes "executed t evs' m" and "\<forall>k \<in> set (loaded t). executed s evs k"
  shows "executed s (evs @ evs') m"
  using assms by (auto simp: executed_def)

lemma run_of_Nil: "events s' = events s \<Longrightarrow> loaded s' = loaded s \<Longrightarrow> run_of w s r s' []"
  by (simp add: run_of_def executed_def)

lemma run_of_all_ok:
  assumes "run_of w s None t evs" and "x \<in> set evs"
  shows "outcome w x = None"
proof (cases "evs = []")
  case True
  with assms show ?thesis by simp
next
  case False
  then have "evs = butlast evs @ [last evs]" by simp
  then have "set evs = insert (last evs) (set (butlast evs))"
    by (metis Un_insert_right append_Nil2 list.simps(15) set_append)
  with assms False show ?thesis
    by (cases "outcome w (last evs)") (auto simp: run_of_def)
qed

lemma run_of_append:
  assumes a: "run_of w s None t evs" and b: "run_of w t r s' evs'"
  shows "run_of w s r s' (evs @ evs')"
proof -
  have 1: "events s' = events s @ evs @ evs'"
    using a b by (simp add: run_of_def)
  have 2: "set (loaded s) \<subseteq> set (loaded s')"
    using a b by (auto simp: run_of_def)
  have 3: "\<forall>m \<in> set (loaded s'). executed s (evs @ evs') m"
  proof
    fix m assume "m \<in> set (loaded s')"
    with b have "executed t evs' m" by (simp add: run_of_def)
    moreover from a have "\<forall>k \<in> set (loaded t). executed s evs k" by (simp add: run_of_def)
    ultimately show "executed s (evs @ evs') m" by (rule executed_trans)
  qed
  have ok: "\<forall>x \<in> set evs. outcome w x = None"
    using run_of_all_ok [OF a] by blast
  show ?thesis
  proof (cases "evs' = []")
    case True
    have "\<forall>x \<in> set (butlast evs). outcome w x = None"
      using ok by (auto dest: in_set_butlastD)
    moreover have "\<forall>e. evs \<noteq> [] \<longrightarrow> outcome w (last evs) = Some e \<longrightarrow> r = Some e"
      using ok by auto
    ultimately show ?thesis using 1 2 3 True by (simp add: run_of_def)
  next
    case False
    then have "butlast (evs @ evs') = evs @ butlast evs'" "last (evs @ evs') = last evs'"
      by (simp_all add: butlast_append)
    moreover from b have "\<forall>x \<in> set (butlast evs'). outcome w x = None"
      "\<forall>e. outcome w (last evs') = Some e \<longrightarrow> r = Some e"
      using False by (simp_all add: run_of_def)
    ultimately show ?thesis using 1 2 3 ok False by (auto simp: run_of_def)
  qed
qed

lemma run_of_result:
  assumes "run_of w s None t evs" and "events s' = events t" and "loaded s' = loaded t"
  shows "run_of w s r s' evs"
proof -
  have "\<forall>x \<in> set evs. outcome w x = None"
    using run_of_all_ok [OF assms(1)] by blast
  then have "\<forall>x \<in> set (butlast evs). outcome w x = None"
    "\<forall>e. evs \<noteq> [] \<longrightarrow> outcome w (last evs) = Some e \<longrightarrow> r = Some e"
    by (auto dest: in_set_butlastD)
  with assms show ?thesis by (simp add: run_of_def)
qed

lemma import_module_run:
  assumes "import_module w m s = (x, s')"
  shows "\<exists>evs. run_of w s (case x of Inl e \<Rightarrow> Some e | Inr b \<Rightarrow> None) s' (EImport m # evs) \<and>
     (\<forall>y \<in> set evs. \<not> is_step y)"
proof (cases "m \<in> set (loaded s)")
  case True
  with assms have "s' = s\<lparr>events := events s @ [EImport m]\<rparr>" "x = Inr False"
    by (simp_all add: import_module_def)
  then have "run_of w s (case x of Inl e \<Rightarrow> Some e | Inr b \<Rightarrow> None) s' (EImport m # [])"
    by (simp add: run_of_def executed_def)
  then show ?thesis by (intro exI [of _ "[]"]) simp
next
  case False
  define new where "new = remdups (filter (\<lambda>n. n \<notin> set (loaded s) \<and> n \<noteq> m) (imports_of w m))"
  let ?evs = "map EDep new @ [ELoad m]"
  have b: "butlast (EImport m # ?evs) = EImport m # map EDep new"
    by (simp add: butlast_append)
  have l: "last (EImport m # ?evs) = ELoad m" by simp
  have o: "\<forall>x \<in> set (EImport m # map EDep new). outcome w x = None" by auto
  have st: "\<forall>y \<in> set ?evs. \<not> is_step y" by auto
  show ?thesis
  proof (cases "exec_module w m")
    case None
    with False assms have s': "events s' = events s @ EImport m # ?evs"
      "loaded s' = loaded s @ new @ [m]" and x: "x = Inr True"
      by (auto simp: import_module_def Let_def new_def)
    have "\<forall>k \<in> set (loaded s'). executed s (EImport m # ?evs) k"
      by (auto simp: s' executed_def)
    with s' x None have "run_of w s (case x of Inl e \<Rightarrow> Some e | Inr b \<Rightarrow> None) s' (EImport m # ?evs)"
      unfolding run_of_def b l using o by auto
    with st show ?thesis by blast
  next
    case (Some e)
    with False assms have s': "events s' = events s @ EImport m # ?evs"
      "loaded s' = loaded s @ new" and x: "x = Inl e"
      by (auto simp: import_module_def Let_def new_def)
    have "\<forall>k \<in> set (loaded s'). executed s (EImport m # ?evs) k"
      by (auto simp: s' executed_def)
    with s' x Some have "run_of w s (case x of Inl e \<Rightarrow> Some e | Inr b \<Rightarrow> None) s' (EImport m # ?evs)"
      unfolding run_of_def b l using o by auto
    with st show ?thesis by blast
  qed
qed

lemma followsI:
  assumes "\<And>r s'. exec cs s = (r, s') \<Longrightarrow>
     \<exists>evs. run_of w s r s' evs \<and> prefix (filter is_step evs) steps \<and>
       (r = None \<longrightarrow> filter is_step evs = steps \<and> set ms \<subseteq> set (loaded s'))"
  shows "follows w cs s steps ms"
  unfolding follows_def using assms by blast

lemma followsD:
  assumes "follows w cs s steps ms" and "exec cs s = (r, s')"
  shows "\<exists>evs. run_of w s r s' evs \<and> prefix (filter is_step evs) steps \<and>
       (r = None \<longrightarrow> filter is_step evs = steps \<and> set ms \<subseteq> set (loaded s'))"
  using assms unfolding follows_def by blast

lemma follows_append:
  assumes a: "follows w cs s sa ma"
    and b: "\<And>t. exec cs s = (None, t) \<Longrightarrow> follows w ds t sb mb"
  shows "follows w (cs @ ds) s (sa @ sb) (ma @ mb)"
proof (rule followsI)
  fix r s' assume run: "exec (cs @ ds) s = (r, s')"
  obtain r1 t where rt: "exec cs s = (r1, t)" by (cases "exec cs s")
  show "\<exists>evs. run_of w s r s' evs \<and> prefix (filter is_step evs) (sa @ sb) \<and>
       (r = None \<longrightarrow> filter is_step evs = sa @ sb \<and> set (ma @ mb) \<subseteq> set (loaded s'))"
  proof (cases r1)
    case (Some e)
    with run rt have rs: "r = Some e" "s' = t" by (simp_all add: exec_append)
    from followsD [OF a rt] obtain evs where
      "run_of w s r1 t evs" "prefix (filter is_step evs) sa" by blast
    with rs Some show ?thesis
      by (intro exI [of _ evs]) (simp add: prefix_prefix)
  next
    case None
    with run rt have run2: "exec ds t = (r, s')" by (simp add: exec_append)
    from followsD [OF a rt] None obtain evs where
      e1: "run_of w s None t evs" "filter is_step evs = sa" "set ma \<subseteq> set (loaded t)"
      by blast
    from followsD [OF b [OF rt [unfolded None]] run2] obtain evs' where
      e2: "run_of w t r s' evs'" "prefix (filter is_step evs') sb" and
      ok: "r = None \<longrightarrow> filter is_step evs' = sb \<and> set mb \<subseteq> set (loaded s')"
      by blast
    from e2(1) have "set (loaded t) \<subseteq> set (loaded s')" by (simp add: run_of_def)
    with e1(3) have "set ma \<subseteq> set (loaded s')" by blast
    with run_of_append [OF e1(1) e2(1)] e1(2) e2(2) ok show ?thesis
      by (intro exI [of _ "evs @ evs'"]) simp
  qed
qed

lemma follows_import:
  assumes "\<And>r s'. c s = (r, s') \<Longrightarrow>
      \<exists>x t. import_module w m s = (x, t) \<and> events s' = events t \<and> loaded s' = loaded t \<and>
        (case x of Inl e \<Rightarrow> r = Some e | Inr b \<Rightarrow> True)"
  shows "follows w [c] s [EImport m] [m]"
proof (rule followsI)
  fix r s' assume "exec [c] s = (r, s')"
  then have run: "c s = (r, s')" by (simp only: exec_single)
  from assms [OF run] obtain x t where
    xt: "import_module w m s = (x, t)" "events s' = events t" "loaded s' = loaded t"
      "case x of Inl e \<Rightarrow> r = Some e | Inr b \<Rightarrow> True"
    by blast
  from import_module_run [OF xt(1)] obtain evs where
    evs: "run_of w s (case x of Inl e \<Rightarrow> Some e | Inr b \<Rightarrow> None) t (EImport m # evs)"
      "\<forall>y \<in> set evs. \<not> is_step y"
    by blast
  from evs(2) have f: "filter is_step (EImport m # evs) = [EImport m]"
    by (simp add: filter_empty_conv)
  have "run_of w s r s' (EImport m # evs) \<and> (r = None \<longrightarrow> m \<in> set (loaded s'))"
  proof (cases x)
    case (Inl e)
    with xt(4) have "r = Some e" by simp
    with evs(1) Inl xt(2,3) show ?thesis by (simp add: run_of_def)
  next
    case (Inr b)
    with evs(1) have "run_of w s None t (EImport m # evs)" by simp
    from run_of_result [OF this xt(2,3)] import_module_ok [OF xt(1) [unfolded Inr]] xt(3)
    show ?thesis by simp
  qed
  with f show "\<exists>evs. run_of w s r s' evs \<and> prefix (filter is_step evs) [EImport m] \<and>
       (r = None \<longrightarrow> filter is_step evs = [EImport m] \<and> set [m] \<subseteq> set (loaded s'))"
    by (intro exI [of _ "EImport m # evs"]) simp
qed

lemma follows_skip:
  assumes "\<And>r s'. c s = (r, s') \<Longrightarrow> r = None \<and> events s' = events s \<and> loaded s' = loaded s"
  shows "follows w [c] s [] []"
proof (rule followsI)
  fix r s' assume "exec [c] s = (r, s')"
  then have "c s = (r, s')" by (simp only: exec_single)
  from assms [OF this] have "run_of w s r s' []" by (simp add: run_of_Nil)
  then show "\<exists>evs. run_of w s r s' evs \<and> prefix (filter is_step evs) [] \<and>
       (r = None \<longrightarrow> filter is_step evs = [] \<and> set [] \<subseteq> set (loaded s'))"
    by (intro exI [of _ "[]"]) simp
qed

lemma import_names_fields:
  "import_names w m names t = (r, s') \<Longrightarrow>
     events s' = events t \<and> loaded s' = loaded t \<and> initialised s' = initialised t"
proof (induction names arbitrary: t)
  case Nil
  then show ?case by simp
next
  case (Cons x names)
  obtain a b where x: "x = (a, b)" by (cases x)
  show ?case
  proof (cases "attr_of w (VModule m) a")
    case None
    with Cons.prems x show ?thesis by simp
  next
    case (Some v)
    with Cons.prems x have "import_names w m names (bind_name b v t) = (r, s')" by simp
    from Cons.IH [OF this] show ?thesis by simp
  qed
qed

lemma follows_mods:
  assumes "follows w cs s steps ms" and "set ms' \<subseteq> set ms"
  shows "follows w cs s steps ms'"
  using assms unfolding follows_def by blast

lemma follows_import_dotted: "follows w [import_dotted w m] s [EImport m] [m]"
proof (rule follows_import)
  fix r s' assume run: "import_dotted w m s = (r, s')"
  obtain x t where xt: "import_module w m s = (x, t)" by (cases "import_module w m s")
  show "\<exists>x t. import_module w m s = (x, t) \<and> events s' = events t \<and> loaded s' = loaded t \<and>
        (case x of Inl e \<Rightarrow> r = Some e | Inr b \<Rightarrow> True)"
  proof (cases x)
    case (Inl e)
    with run xt have "r = Some e" "s' = t" by (simp_all add: import_dotted_def)
    with xt Inl show ?thesis by simp
  next
    case (Inr b)
    with run xt have "s' = bind_name (top_name m) (VModule (top_name m)) t"
      by (simp add: import_dotted_def)
    with xt Inr show ?thesis by simp
  qed
qed

lemma import_submodule_via:
  assumes "import_submodule w c s = (r, s')"
  shows "\<exists>x t. import_module w (submodule c) s = (x, t) \<and> events s' = events t \<and>
     loaded s' = loaded t \<and> (case x of Inl e \<Rightarrow> r = Some e | Inr b \<Rightarrow> r = None)"
proof -
  obtain x t where xt: "import_module w (submodule c) s = (x, t)"
    by (cases "import_module w (submodule c) s")
  show ?thesis
  proof (cases x)
    case (Inl e)
    with assms xt have "r = Some e" "s' = t" by (simp_all add: import_submodule_def)
    with xt Inl show ?thesis by simp
  next
    case (Inr b)
    with assms xt have "r = None" "s' = (if b then bind_name c (VModule (submodule c)) t else t)"
      by (simp_all add: import_submodule_def)
    with xt Inr show ?thesis by simp
  qed
qed

lemma follows_submodule:
  assumes "\<And>r s'. c s = (r, s') \<Longrightarrow>
      \<exists>r1 t1. import_submodule w m s = (r1, t1) \<and> events s' = events t1 \<and> loaded s' = loaded t1 \<and>
        (r1 = None \<or> r = r1)"
  shows "follows w [c] s [EImport (submodule m)] [submodule m]"
proof (rule follows_import)
  fix r s' assume "c s = (r, s')"
  from assms [OF this] obtain r1 t1 where
    1: "import_submodule w m s = (r1, t1)" "events s' = events t1" "loaded s' = loaded t1"
      "r1 = None \<or> r = r1"
    by blast
  from import_submodule_via [OF 1(1)] obtain x t where
    2: "import_module w (submodule m) s = (x, t)" "events t1 = events t" "loaded t1 = loaded t"
      "case x of Inl e \<Rightarrow> r1 = Some e | Inr b \<Rightarrow> r1 = None"
    by blast
  have "case x of Inl e \<Rightarrow> r = Some e | Inr b \<Rightarrow> True"
    using 1(4) 2(4) by (cases x) auto
  with 1 2 show "\<exists>x t. import_module w (submodule m) s = (x, t) \<and> events s' = events t \<and>
      loaded s' = loaded t \<and> (case x of Inl e \<Rightarrow> r = Some e | Inr b \<Rightarrow> True)"
    by simp
qed

lemma follows_star: "follows w [from_import_star w c] s [EImport (submodule c)] [submodule c]"
proof (rule follows_submodule)
  fix r s' assume run: "from_import_star w c s = (r, s')"
  obtain r1 t1 where rt: "import_submodule w c s = (r1, t1)" by (cases "import_submodule w c s")
  with run show "\<exists>r1 t1. import_submodule w c s = (r1, t1) \<and> events s' = events t1 \<and>
      loaded s' = loaded t1 \<and> (r1 = None \<or> r = r1)"
    by (cases r1) (auto simp: from_import_star_def)
qed

lemma follows_from_import:
  "follows w [from_import w c names] s [EImport (submodule c)] [submodule c]"
proof (rule follows_submodule)
  fix r s' assume run: "from_import w c names s = (r, s')"
  obtain r1 t1 where rt: "import_submodule w c s = (r1, t1)" by (cases "import_submodule w c s")
  show "\<exists>r1 t1. import_submodule w c s = (r1, t1) \<and> events s' = events t1 \<and>
      loaded s' = loaded t1 \<and> (r1 = None \<or> r = r1)"
  proof (cases r1)
    case None
    with run rt have "import_names w (submodule c) names t1 = (r, s')"
      by (simp add: from_import_def)
    from import_names_fields [OF this] rt None show ?thesis by simp
  next
    case (Some e)
    with run rt show ?thesis by (simp add: from_import_def)
  qed
qed

lemma follows_package_import:
  assumes "map_of (ns s) c = None"
  shows "follows w [from_package_import w c] s [EImport (submodule c)] [submodule c]"
proof (rule follows_submodule)
  fix r s' assume run: "from_package_import w c s = (r, s')"
  obtain r1 t1 where rt: "import_submodule w c s = (r1, t1)" by (cases "import_submodule w c s")
  with run assms show "\<exists>r1 t1. import_submodule w c s = (r1, t1) \<and> events s' = events t1 \<and>
      loaded s' = loaded t1 \<and> (r1 = None \<or> r = r1)"
    by (cases r1) (auto simp: from_package_import_def)
qed

lemma follows_package_import_bound:
  assumes "map_of (ns s) c = Some v"
  shows "follows w [from_package_import w c] s [] []"
  by (rule follows_skip) (use assms in \<open>auto simp: from_package_import_def\<close>)

lemma follows_def_get_config: "follows w [def_get_config] s [] []"
  by (rule follows_skip) (auto simp: def_get_config_def)

lemma follows_assign_all: "follows w [assign_all] s [] []"
  by (rule follows_skip) (auto simp: assign_all_def)

lemma follows_loader:
  assumes "map_of (ns s) ''bob'' = Some (VModule ''bob'')" and "map_of (ns s) ''__file__'' = Some p"
  shows "follows w [load_bob_library_stmt w] s [ECall (loader w) [VStr ''bob.ip.gabor'', p]] []"
proof (rule followsI)
  fix r s' assume "exec [load_bob_library_stmt w] s = (r, s')"
  then have run: "load_bob_library_stmt w s = (r, s')" by (simp only: exec_single)
  let ?ev = "ECall (loader w) [VStr ''bob.ip.gabor'', p]"
  from load_bob_library_stmt_cases [OF run assms] consider
    (a) "r \<noteq> None" "s' = s" |
    (b) "s' = s\<lparr>events := events s @ [?ev]\<rparr>"
      "case call_ext w (loader w) [VStr ''bob.ip.gabor'', p] of Inl e \<Rightarrow> r = Some e | Inr v \<Rightarrow> r = None"
    by (auto simp: loader_def)
  then show "\<exists>evs. run_of w s r s' evs \<and> prefix (filter is_step evs) [?ev] \<and>
       (r = None \<longrightarrow> filter is_step evs = [?ev] \<and> set [] \<subseteq> set (loaded s'))"
  proof cases
    case a
    then have "run_of w s r s' []" by (simp add: run_of_Nil)
    with a show ?thesis by (intro exI [of _ "[]"]) simp
  next
    case b
    have "run_of w s r s' [?ev]"
      using b by (cases "call_ext w (loader w) [VStr ''bob.ip.gabor'', p]")
        (simp_all add: run_of_def executed_def)
    then show ?thesis by (intro exI [of _ "[?ev]"]) simp
  qed
qed

lemma first_three:
  assumes "exec [import_dotted w ''bob.io.base'', import_dotted w ''bob.sp'',
      import_dotted w ''bob.extension''] s = (None, t)"
  shows "ns t = AList.update ''bob'' (VModule ''bob'') (AList.update ''bob'' (VModule ''bob'')
         (AList.update ''bob'' (VModule ''bob'') (ns s)))"
proof -
  from assms obtain t1 t2 where
    "import_dotted w ''bob.io.base'' s = (None, t1)"
    "import_dotted w ''bob.sp'' t1 = (None, t2)"
    "import_dotted w ''bob.extension'' t2 = (None, t)"
    by (auto simp: exec_Cons_ok simp del: exec.simps(2))
  from import_dotted_ok [OF this(1)] import_dotted_ok [OF this(2)] import_dotted_ok [OF this(3)]
  show ?thesis by simp
qed

lemma deps_follow:
  "follows w [import_dotted w ''bob.io.base'', import_dotted w ''bob.sp'',
      import_dotted w ''bob.extension''] s
    [EImport ''bob.io.base'', EImport ''bob.sp'', EImport ''bob.extension'']
    [''bob.io.base'', ''bob.sp'', ''bob.extension'']"
proof -
  let ?c1 = "import_dotted w ''bob.io.base''" and ?c2 = "import_dotted w ''bob.sp''"
    and ?c3 = "import_dotted w ''bob.extension''"
  have 1: "follows w [?c1] s [EImport ''bob.io.base''] [''bob.io.base'']"
    by (rule follows_import_dotted)
  have 2: "follows w ([?c1] @ [?c2]) s ([EImport ''bob.io.base''] @ [EImport ''bob.sp''])
      ([''bob.io.base''] @ [''bob.sp''])"
    by (rule follows_append [OF 1]) (rule follows_import_dotted)
  have "follows w (([?c1] @ [?c2]) @ [?c3]) s
      (([EImport ''bob.io.base''] @ [EImport ''bob.sp'']) @ [EImport ''bob.extension''])
      (([''bob.io.base''] @ [''bob.sp'']) @ [''bob.extension''])"
    by (rule follows_append [OF 2]) (rule follows_import_dotted)
  then show ?thesis by simp
qed

lemma version_block:
  "follows w [from_package_import w ''version'', from_import w ''version'' n1,
      from_import w ''version'' n2] t
    ((if map_of (ns t) ''version'' = None then [EImport (submodule ''version'')] else []) @
     [EImport (submodule ''version''), EImport (submodule ''version'')])
    [submodule ''version'']"
proof -
  let ?c6 = "from_package_import w ''version''" and ?c7 = "from_import w ''version'' n1"
    and ?c8 = "from_import w ''version'' n2"
  let ?v = "EImport (submodule ''version'')"
  let ?first = "if map_of (ns t) ''version'' = None then [?v] else []"
  have 6: "follows w [?c6] t ?first []"
  proof (cases "map_of (ns t) ''version''")
    case None
    from follows_mods [OF follows_package_import [OF None, of w]] None show ?thesis by simp
  next
    case (Some v)
    from follows_package_import_bound [OF Some, of w] Some show ?thesis by simp
  qed
  have 7: "follows w ([?c6] @ [?c7]) t (?first @ [?v]) ([] @ [submodule ''version''])"
    by (rule follows_append [OF 6]) (rule follows_from_import)
  have "follows w (([?c6] @ [?c7]) @ [?c8]) t ((?first @ [?v]) @ [?v])
      (([] @ [submodule ''version'']) @ [submodule ''version''])"
    by (rule follows_append [OF 7]) (rule follows_from_import)
  then have "follows w [?c6, ?c7, ?c8] t (?first @ [?v, ?v])
      [submodule ''version'', submodule ''version'']"
    by simp
  then show ?thesis by (rule follows_mods) simp
qed

lemma star_version:
  assumes "from_import_star w ''_library'' t = (None, t5)" and "''version'' \<notin> fst ` set (ns t)"
  shows "map_of (ns t5) ''version'' = None \<longleftrightarrow>
    ''version'' \<notin> fst ` set (star_names w (submodule ''_library''))"
proof -
  from from_import_star_ok [OF assms(1)] obtain u where
    u: "import_submodule w ''_library'' t = (None, u)"
      "t5 = bind_all (star_names w (submodule ''_library'')) u"
    by blast
  from import_submodule_maybe [OF u(1)] obtain b where "ns u = maybe b ''_library'' (ns t)"
    by blast
  with assms(2) have "''version'' \<notin> fst ` set (ns u)"
    by (simp add: maybe_def dom_update)
  then show ?thesis
    by (simp add: map_of_eq_None_iff u(2) bind_all_keys)
qed

lemma rest_follows:
  assumes "''version'' \<notin> fst ` set (ns t)"
  shows "follows w [from_import_star w ''_library'', from_package_import w ''version'',
      from_import w ''version'' [(''module'', ''__version__'')],
      from_import w ''version'' [(''api'', ''__api_version__'')],
      from_import w ''auxiliar'' [(''load_jets'', ''load_jets''), (''save_jets'', ''save_jets'')],
      def_get_config, assign_all] t
    ([EImport (submodule ''_library'')] @
     (if ''version'' \<in> fst ` set (star_names w (submodule ''_library'')) then []
      else [EImport (submodule ''version'')]) @
     [EImport (submodule ''version''), EImport (submodule ''version''),
      EImport (submodule ''auxiliar'')])
    [submodule ''_library'', submodule ''version'', submodule ''auxiliar'']"
proof -
  let ?c5 = "from_import_star w ''_library''"
    and ?c6 = "from_package_import w ''version''"
    and ?c7 = "from_import w ''version'' [(''module'', ''__version__'')]"
    and ?c8 = "from_import w ''version'' [(''api'', ''__api_version__'')]"
    and ?c9 = "from_import w ''auxiliar''
      [(''load_jets'', ''load_jets''), (''save_jets'', ''save_jets'')]"
  let ?v = "EImport (submodule ''version'')"
  let ?first = "if ''version'' \<in> fst ` set (star_names w (submodule ''_library'')) then []
      else [?v]"
  have 5: "follows w [?c5] t [EImport (submodule ''_library'')] [submodule ''_library'']"
    by (rule follows_star)
  have 8: "follows w ([?c5] @ [?c6, ?c7, ?c8]) t
      ([EImport (submodule ''_library'')] @ (?first @ [?v, ?v]))
      ([submodule ''_library''] @ [submodule ''version''])"
  proof (rule follows_append [OF 5])
    fix t5 assume "exec [?c5] t = (None, t5)"
    then have "?c5 t = (None, t5)" by (simp only: exec_single)
    from star_version [OF this assms] version_block [of w "[(''module'', ''__version__'')]"
      "[(''api'', ''__api_version__'')]" t5]
    show "follows w [?c6, ?c7, ?c8] t5 (?first @ [?v, ?v]) [submodule ''version'']"
      by (cases "map_of (ns t5) ''version''") simp_all
  qed
  have 9: "follows w (([?c5] @ [?c6, ?c7, ?c8]) @ [?c9]) t
      (([EImport (submodule ''_library'')] @ (?first @ [?v, ?v])) @ [EImport (submodule ''auxiliar'')])
      (([submodule ''_library''] @ [submodule ''version'']) @ [submodule ''auxiliar''])"
    by (rule follows_append [OF 8]) (rule follows_from_import)
  have 10: "follows w ((([?c5] @ [?c6, ?c7, ?c8]) @ [?c9]) @ [def_get_config]) t
      ((([EImport (submodule ''_library'')] @ (?first @ [?v, ?v])) @
        [EImport (submodule ''auxiliar'')]) @ [])
      ((([submodule ''_library''] @ [submodule ''version'']) @ [submodule ''auxiliar'']) @ [])"
    by (rule follows_append [OF 9]) (rule follows_def_get_config)
  have "follows w (((([?c5] @ [?c6, ?c7, ?c8]) @ [?c9]) @ [def_get_config]) @ [assign_all]) t
      (((([EImport (submodule ''_library'')] @ (?first @ [?v, ?v])) @
        [EImport (submodule ''auxiliar'')]) @ []) @ [])
      (((([submodule ''_library''] @ [submodule ''version'']) @ [submodule ''auxiliar'']) @ []) @ [])"
    by (rule follows_append [OF 10]) (rule follows_assign_all)
  then show ?thesis by simp
qed

lemma after_deps:
  assumes "exec [import_dotted w ''bob.io.base'', import_dotted w ''bob.sp'',
      import_dotted w ''bob.extension''] s = (None, t)" and "ns s = init_ns w"
  shows "map_of (ns t) ''bob'' = Some (VModule ''bob'')"
    and "map_of (ns t) ''__file__'' = Some (VStr (file_path w))"
    and "''version'' \<notin> fst ` set (ns t)"
  using first_three [OF assms(1)] assms(2)
  by (simp_all add: update_conv' init_ns_def dom_update)

lemma body_split:
  "module_body w = [import_dotted w ''bob.io.base'', import_dotted w ''bob.sp'',
      import_dotted w ''bob.extension''] @ [load_bob_library_stmt w] @
     [from_import_star w ''_library'', from_package_import w ''version'',
      from_import w ''version'' [(''module'', ''__version__'')],
      from_import w ''version'' [(''api'', ''__api_version__'')],
      from_import w ''auxiliar'' [(''load_jets'', ''load_jets''), (''save_jets'', ''save_jets'')],
      def_get_config, assign_all]"
  by (simp add: module_body_def preamble_def)

lemma body_follows:
  assumes "ns s = init_ns w"
  shows "follows w (module_body w) s (schedule w)
    [''bob.io.base'', ''bob.sp'', ''bob.extension'', submodule ''_library'',
     submodule ''version'', submodule ''auxiliar'']"
proof -
  let ?A = "[import_dotted w ''bob.io.base'', import_dotted w ''bob.sp'',
      import_dotted w ''bob.extension'']"
  let ?B = "[from_import_star w ''_library'', from_package_import w ''version'',
      from_import w ''version'' [(''module'', ''__version__'')],
      from_import w ''version'' [(''api'', ''__api_version__'')],
      from_import w ''auxiliar'' [(''load_jets'', ''load_jets''), (''save_jets'', ''save_jets'')],
      def_get_config, assign_all]"
  let ?call = "ECall (loader w) [VStr ''bob.ip.gabor'', VStr (file_path w)]"
  let ?sA = "[EImport ''bob.io.base'', EImport ''bob.sp'', EImport ''bob.extension'']"
  let ?sB = "[EImport (submodule ''_library'')] @
     (if ''version'' \<in> fst ` set (star_names w (submodule ''_library'')) then []
      else [EImport (submodule ''version'')]) @
     [EImport (submodule ''version''), EImport (submodule ''version''),
      EImport (submodule ''auxiliar'')]"
  let ?mA = "[''bob.io.base'', ''bob.sp'', ''bob.extension'']"
  let ?mB = "[submodule ''_library'', submodule ''version'', submodule ''auxiliar'']"
  have "follows w (?A @ ([load_bob_library_stmt w] @ ?B)) s (?sA @ ([?call] @ ?sB))
      (?mA @ ([] @ ?mB))"
  proof (rule follows_append [OF deps_follow])
    fix t assume A: "exec ?A s = (None, t)"
    note t = after_deps [OF A assms]
    show "follows w ([load_bob_library_stmt w] @ ?B) t ([?call] @ ?sB) ([] @ ?mB)"
    proof (rule follows_append [OF follows_loader [OF t(1,2)]])
      fix t4 assume "exec [load_bob_library_stmt w] t = (None, t4)"
      then have "load_bob_library_stmt w t = (None, t4)" by (simp only: exec_single)
      from load_bob_library_stmt_ok [OF this] t(3) have "''version'' \<notin> fst ` set (ns t4)"
        by simp
      then show "follows w ?B t4 ?sB ?mB" by (rule rest_follows)
    qed
  qed
  then show ?thesis
    by (simp only: body_split [symmetric]) (simp add: schedule_def)
qed

lemma import_package_events:
  assumes "\<not> initialised s" and "import_package w s = (r, s')"
  shows "\<exists>t. exec (module_body w) (fresh_module w s) = (r, t) \<and> events s' = events t \<and>
    (case r of None \<Rightarrow> s' = t\<lparr>initialised := True\<rparr> | Some e \<Rightarrow> s' = t\<lparr>ns := []\<rparr>)"
proof -
  obtain r1 t where rt: "exec (module_body w) (fresh_module w s) = (r1, t)"
    by (cases "exec (module_body w) (fresh_module w s)")
  with assms show ?thesis by (cases r1) (auto simp: import_package_def)
qed

lemma raised_by_load:
  "exec_module w m = Some e \<Longrightarrow> events s' \<noteq> [] \<and> last (events s') = ELoad m \<Longrightarrow> raised_by w e s'"
  by (auto simp: raised_by_def)

lemma import_dotted_raised: "import_dotted w m t = (Some e, s') \<Longrightarrow> raised_by w e s'"
  by (drule import_dotted_fail) (auto intro: raised_by_load)

lemma import_submodule_raised: "import_submodule w c t = (Some e, s') \<Longrightarrow> raised_by w e s'"
  by (drule import_submodule_fail) (auto intro: raised_by_load)

lemma from_import_star_raised: "from_import_star w c t = (Some e, s') \<Longrightarrow> raised_by w e s'"
  by (drule from_import_star_fail) (rule import_submodule_raised)

lemma from_package_import_raised: "from_package_import w c t = (Some e, s') \<Longrightarrow> raised_by w e s'"
  by (drule from_package_import_fail) (rule import_submodule_raised)

lemma from_import_raised:
  assumes "from_import w c names t = (Some e, s')"
  shows "raised_by w e s'"
  using from_import_fail [OF assms]
proof
  assume "import_submodule w c t = (Some e, s')"
  then show ?thesis by (rule import_submodule_raised)
next
  assume "\<exists>u. import_submodule w c t = (None, u) \<and>
    import_names w (submodule c) names u = (Some e, s')"
  then obtain u where "import_names w (submodule c) names u = (Some e, s')" by blast
  from import_names_fail [OF this] obtain a where
    "attr_of w (VModule (submodule c)) a = None" "e = ImportError (submodule c) a" by blast
  then show ?thesis unfolding raised_by_def by blast
qed

lemma load_bob_library_stmt_raised:
  assumes "load_bob_library_stmt w t = (Some e, s')"
    and "map_of (ns t) ''bob'' = Some b" and "map_of (ns t) ''__file__'' = Some p"
  shows "raised_by w e s'"
proof (cases "attr_of w b ''extension''")
  case None
  with assms have "e = AttributeError b ''extension''"
    by (simp add: load_bob_library_stmt_def load_name_def load_attr_def)
  with None show ?thesis unfolding raised_by_def by blast
next
  case (Some x)
  show ?thesis
  proof (cases "attr_of w x ''load_bob_library''")
    case None
    with Some assms have "e = AttributeError x ''load_bob_library''"
      by (simp add: load_bob_library_stmt_def load_name_def load_attr_def)
    with None show ?thesis unfolding raised_by_def by blast
  next
    case f: (Some f)
    show ?thesis
    proof (cases "call_ext w f [VStr ''bob.ip.gabor'', p]")
      case (Inl e')
      with Some f assms have "e = e'"
        "s' = t\<lparr>events := events t @ [ECall f [VStr ''bob.ip.gabor'', p]]\<rparr>"
        by (simp_all add: load_bob_library_stmt_def load_name_def load_attr_def call_external_def)
      with Inl have "call_ext w f [VStr ''bob.ip.gabor'', p] = Inl e \<and> events s' \<noteq> [] \<and>
          last (events s') = ECall f [VStr ''bob.ip.gabor'', p]"
        by simp
      then show ?thesis unfolding raised_by_def by blast
    next
      case (Inr v)
      with Some f assms show ?thesis
        by (simp add: load_bob_library_stmt_def load_name_def load_attr_def call_external_def)
    qed
  qed
qed

lemma exec_raised:
  assumes "exec cs s = (Some e, s')"
    and "\<And>c t. c \<in> set cs \<Longrightarrow> c t = (Some e, s') \<Longrightarrow> P"
  shows P
proof -
  from exec_fail [OF assms(1)] obtain pre c post t where
    "cs = pre @ c # post" "c t = (Some e, s')" by blast
  then show P by (intro assms(2) [of c t]) simp_all
qed

lemma import_module_initialised: "initialised (snd (import_module w m s)) = initialised s"
  by (simp add: import_module_def Let_def split: option.split)

lemma import_submodule_initialised: "initialised (snd (import_submodule w c s)) = initialised s"
proof (cases "import_module w (submodule c) s")
  case (Pair r t)
  with import_module_initialised [of w "submodule c" s] show ?thesis
    by (cases r) (simp_all add: import_submodule_def)
qed

lemma import_dotted_initialised: "initialised (snd (import_dotted w m s)) = initialised s"
proof (cases "import_module w m s")
  case (Pair r t)
  with import_module_initialised [of w m s] show ?thesis
    by (cases r) (simp_all add: import_dotted_def)
qed

lemma from_import_star_initialised: "initialised (snd (from_import_star w c s)) = initialised s"
proof (cases "import_submodule w c s")
  case (Pair r t)
  with import_submodule_initialised [of w c s] show ?thesis
    by (cases r) (simp_all add: from_import_star_def)
qed

lemma from_package_import_initialised:
  "initialised (snd (from_package_import w c s)) = initialised s"
proof (cases "import_submodule w c s")
  case (Pair r t)
  with import_submodule_initialised [of w c s] show ?thesis
    by (cases r; cases "map_of (ns s) c") (simp_all add: from_package_import_def)
qed

lemma from_import_initialised: "initialised (snd (from_import w c names s)) = initialised s"
proof (cases "import_submodule w c s")
  case (Pair r t)
  show ?thesis
  proof (cases r)
    case None
    obtain r' t' where "import_names w (submodule c) names t = (r', t')"
      by (cases "import_names w (submodule c) names t")
    with import_names_fields [OF this] Pair None import_submodule_initialised [of w c s]
    show ?thesis by (simp add: from_import_def)
  next
    case (Some e)
    with Pair import_submodule_initialised [of w c s] show ?thesis
      by (simp add: from_import_def)
  qed
qed

lemma load_bob_library_stmt_initialised:
  "initialised (snd (load_bob_library_stmt w s)) = initialised s"
  by (simp add: load_bob_library_stmt_def call_external_def split: sum.split prod.split)

lemma exec_initialised:
  assumes "\<And>c t. c \<in> set cs \<Longrightarrow> initialised (snd (c t)) = initialised t"
  shows "initialised (snd (exec cs s)) = initialised s"
  using assms
proof (induction cs arbitrary: s)
  case Nil
  then show ?case by simp
next
  case (Cons c cs)
  obtain r t where rt: "c s = (r, t)" by (cases "c s")
  from Cons.prems [of c s] rt have i: "initialised t = initialised s" by simp
  show ?case
  proof (cases r)
    case None
    from Cons.IH [of t] Cons.prems have "initialised (snd (exec cs t)) = initialised t" by simp
    with rt None i show ?thesis by simp
  next
    case (Some e)
    with rt i show ?thesis by simp
  qed
qed

lemma body_initialised: "initialised (snd (exec (module_body w) s)) = initialised s"
  by (rule exec_initialised)
    (auto simp: module_body_def preamble_def import_dotted_initialised
      load_bob_library_stmt_initialised from_import_star_initialised
      from_package_import_initialised from_import_initialised def_get_config_def assign_all_def)

lemma body_raised:
  assumes "exec (module_body w) s = (Some e, s')" and "ns s = init_ns w"
  shows "raised_by w e s'"
proof -
  let ?A = "[import_dotted w ''bob.io.base'', import_dotted w ''bob.sp'',
      import_dotted w ''bob.extension'']"
  let ?B = "[from_import_star w ''_library'', from_package_import w ''version'',
      from_import w ''version'' [(''module'', ''__version__'')],
      from_import w ''version'' [(''api'', ''__api_version__'')],
      from_import w ''auxiliar'' [(''load_jets'', ''load_jets''), (''save_jets'', ''save_jets'')],
      def_get_config, assign_all]"
  have body: "module_body w = ?A @ [load_bob_library_stmt w] @ ?B"
    by (simp add: module_body_def preamble_def)
  have A: "raised_by w e s'" if "c \<in> set ?A" "c u = (Some e, s')" for c u
    using that by (auto dest: import_dotted_raised)
  have B: "raised_by w e s'" if "c \<in> set ?B" "c u = (Some e, s')" for c u
    using that
    by (auto dest: from_import_star_raised from_package_import_raised from_import_raised
        simp: def_get_config_def assign_all_def)
  have sp1: "exec (module_body w) s =
      (case exec ?A s of (Some e, t) \<Rightarrow> (Some e, t)
       | (None, t) \<Rightarrow> exec ([load_bob_library_stmt w] @ ?B) t)"
    by (simp only: body exec_append [of ?A])
  have sp2: "exec ([load_bob_library_stmt w] @ ?B) u =
      (case load_bob_library_stmt w u of (Some e, t) \<Rightarrow> (Some e, t) | (None, t) \<Rightarrow> exec ?B t)" for u
    by (simp only: exec_append [of "[load_bob_library_stmt w]"] exec_single)
  obtain r1 t where rt: "exec ?A s = (r1, t)" by (cases "exec ?A s")
  show ?thesis
  proof (cases r1)
    case (Some e1)
    with assms(1) rt have "exec ?A s = (Some e, s')"
      by (simp add: sp1 del: exec.simps(2))
    then show ?thesis by (rule exec_raised) (rule A)
  next
    case None
    with assms(1) rt have run: "exec ([load_bob_library_stmt w] @ ?B) t = (Some e, s')"
      by (simp only: sp1 prod.case option.case)
    from first_three [OF rt [unfolded None]] assms(2) have l:
      "map_of (ns t) ''bob'' = Some (VModule ''bob'')"
      "map_of (ns t) ''__file__'' = Some (VStr (file_path w))"
      by (simp_all add: update_conv' init_ns_def)
    obtain r4 t4 where r4: "load_bob_library_stmt w t = (r4, t4)"
      by (cases "load_bob_library_stmt w t")
    show ?thesis
    proof (cases r4)
      case (Some e4)
      with run r4 have "load_bob_library_stmt w t = (Some e, s')"
        by (simp only: sp2 prod.case option.case)
      from load_bob_library_stmt_raised [OF this l] show ?thesis .
    next
      case None
      with run r4 have "exec ?B t4 = (Some e, s')"
        by (simp only: sp2 prod.case option.case)
      then show ?thesis by (rule exec_raised) (rule B)
    qed
  qed
qed

lemma load_name_Inl:
  "load_name w n t = Inl e \<Longrightarrow> map_of (ns t) n = None \<and> builtin_of w n = None \<and> e = NameError n"
  by (cases "map_of (ns t) n"; cases "builtin_of w n") (simp_all add: load_name_def)

lemma load_attr_Inl: "load_attr w v a = Inl e \<Longrightarrow> attr_of w v a = None \<and> e = AttributeError v a"
  by (cases "attr_of w v a") (simp_all add: load_attr_def)

lemma get_config_raised:
  assumes "fst (get_config w t) = Inl e"
  shows "(\<exists>f args. call_ext w f args = Inl e \<and>
            events (snd (get_config w t)) = events t @ [ECall f args]) \<or>
         (\<exists>n. map_of (ns t) n = None \<and> e = NameError n) \<or>
         (\<exists>v a. attr_of w v a = None \<and> e = AttributeError v a)"
proof -
  have N: ?thesis if "load_name w n t = Inl e" for n
    using load_name_Inl [OF that] by blast
  have A: ?thesis if "load_attr w v a = Inl e" for v a
    using load_attr_Inl [OF that] by blast
  show ?thesis
  proof (cases "load_name w ''bob'' t")
    case (Inl e0)
    with assms  have "e0 = e" by (simp add: get_config_def)
    with Inl show ?thesis by (intro N) simp
  next
    case s0: (Inr b)
    show ?thesis
    proof (cases "load_attr w b ''extension''")
      case (Inl e0)
      with assms s0 have "e0 = e" by (simp add: get_config_def)
      with Inl show ?thesis by (intro A) simp
    next
      case s1: (Inr x)
      show ?thesis
      proof (cases "load_attr w x ''get_config''")
        case (Inl e0)
        with assms s0 s1 have "e0 = e" by (simp add: get_config_def)
        with Inl show ?thesis by (intro A) simp
      next
        case s2: (Inr f)
        show ?thesis
        proof (cases "load_name w ''__name__'' t")
          case (Inl e0)
          with assms s0 s1 s2 have "e0 = e" by (simp add: get_config_def)
          with Inl show ?thesis by (intro N) simp
        next
          case s3: (Inr n)
          show ?thesis
          proof (cases "load_name w ''version'' t")
            case (Inl e0)
            with assms s0 s1 s2 s3 have "e0 = e" by (simp add: get_config_def)
            with Inl show ?thesis by (intro N) simp
          next
            case s4: (Inr v1)
            show ?thesis
            proof (cases "load_attr w v1 ''externals''")
              case (Inl e0)
              with assms s0 s1 s2 s3 s4 have "e0 = e" by (simp add: get_config_def)
              with Inl show ?thesis by (intro A) simp
            next
              case s5: (Inr ext)
              show ?thesis
              proof (cases "load_name w ''version'' t")
                case (Inl e0)
                with assms s0 s1 s2 s3 s4 s5 have "e0 = e" by (simp add: get_config_def)
                with Inl show ?thesis by (intro N) simp
              next
                case s6: (Inr v2)
                show ?thesis
                proof (cases "load_attr w v2 ''api''")
                  case (Inl e0)
                  with assms s0 s1 s2 s3 s4 s5 s6 have "e0 = e" by (simp add: get_config_def)
                  with Inl show ?thesis by (intro A) simp
                next
                  case s7: (Inr api)
                  from assms s0 s1 s2 s3 s4 s5 s6 s7 have c: "call_ext w f [n, ext, api] = Inl e"
                    "events (snd (get_config w t)) = events t @ [ECall f [n, ext, api]]"
                    by (simp_all add: get_config_def call_external_def)
                  then show ?thesis by blast
                qed
              qed
            qed
          qed
        qed
      qed
    qed
  qed
qed

lemma import_package_fail:
  assumes "import_package w s = (Some e, s')"
  shows "\<not> initialised s" and "ns s' = []"
    and "\<exists>t. exec (module_body w) (fresh_module w s) = (Some e, t) \<and> events s' = events t \<and>
      initialised s' = initialised t"
proof -
  show i: "\<not> initialised s"
    using assms by (auto simp: import_package_def)
  from import_package_events [OF i assms] obtain t where
    t: "exec (module_body w) (fresh_module w s) = (Some e, t)" "events s' = events t"
      "s' = t\<lparr>ns := []\<rparr>"
    by auto
  then show "ns s' = []" by simp
  from t show "\<exists>t. exec (module_body w) (fresh_module w s) = (Some e, t) \<and> events s' = events t \<and>
      initialised s' = initialised t"
    by auto
qed

lemma preamble_stores_order:
  assumes "exec (preamble w) s = (None, p)" and "stores s = []"
  shows "\<exists>pre mid f g.
     set pre \<subseteq> {(''bob'', VModule ''bob''), (''_library'', VModule (submodule ''_library''))} \<and>
     stores p = pre @ star_names w (submodule ''_library'') @ mid @
       [(''load_jets'', f), (''save_jets'', g), (''get_config'', VFunc pkg_name ''get_config'')]"
proof -
  let ?star = "star_names w (submodule ''_library'')"
  from preamble_effect [OF assms(1)] obtain b5 b6 b7 b8 b9 v6 vm va f g and u :: state where
    su: "stores u = stores s @ [(''bob'', VModule ''bob''), (''bob'', VModule ''bob''),
        (''bob'', VModule ''bob'')] @ maybe_store b5 ''_library''" and
    sp: "stores p = stores u @ ?star @ maybe_store b6 ''version'' @
       [(''version'', v6)] @ maybe_store b7 ''version'' @ [(''__version__'', vm)] @
       maybe_store b8 ''version'' @ [(''__api_version__'', va)] @ maybe_store b9 ''auxiliar'' @
       [(''load_jets'', f), (''save_jets'', g), (''get_config'', VFunc pkg_name ''get_config'')]"
    by blast
  have 1: "set (stores u) \<subseteq>
      {(''bob'', VModule ''bob''), (''_library'', VModule (submodule ''_library''))}"
    by (auto simp: su assms(2) maybe_store_def)
  have 2: "stores p = stores u @ ?star @
      (maybe_store b6 ''version'' @ [(''version'', v6)] @ maybe_store b7 ''version'' @
       [(''__version__'', vm)] @ maybe_store b8 ''version'' @ [(''__api_version__'', va)] @
       maybe_store b9 ''auxiliar'') @
      [(''load_jets'', f), (''save_jets'', g), (''get_config'', VFunc pkg_name ''get_config'')]"
    by (simp add: sp)
  from 1 2 show ?thesis by blast
qed

lemma w0_all:
  "map_of (ns (snd (import_package w0 s0))) ''__all__'' =
     Some (VList (map VStr [''Graph'', ''Jet'', ''Similarity'', ''Transform'', ''Wavelet'',
       ''auxiliar'', ''bob'', ''get_config'', ''load_jets'', ''save_jets'', ''version'']))"
  by code_simp

subsection \<open>The call of the loader\<close>

lemma no_call_in_steps:
  assumes "prefix (filter is_step evs) steps" and "\<forall>x \<in> set steps. \<forall>f a. x \<noteq> ECall f a"
  shows "ECall f a \<notin> set evs"
proof
  assume "ECall f a \<in> set evs"
  then have "ECall f a \<in> set (filter is_step evs)" by simp
  with set_mono_prefix [OF assms(1)] assms(2) show False by blast
qed

lemma executed_fresh: "executed (fresh_module w s) evs m = executed s evs m"
  by (simp add: executed_def fresh_module_def)

lemma body_events:
  assumes "ns s = init_ns w" and "exec (module_body w) s = (r, s')"
  shows "\<exists>ea c eb. events s' = events s @ ea @ c @ eb \<and>
     (\<forall>f a. ECall f a \<notin> set ea) \<and> (\<forall>f a. ECall f a \<notin> set eb) \<and>
     (c = [] \<or> c = [ECall (loader w) [VStr ''bob.ip.gabor'', VStr (file_path w)]] \<and>
        executed s ea ''bob.io.base'' \<and> executed s ea ''bob.sp'' \<and>
        executed s ea ''bob.extension'')"
proof -
  let ?A = "[import_dotted w ''bob.io.base'', import_dotted w ''bob.sp'',
      import_dotted w ''bob.extension'']"
  let ?B = "[from_import_star w ''_library'', from_package_import w ''version'',
      from_import w ''version'' [(''module'', ''__version__'')],
      from_import w ''version'' [(''api'', ''__api_version__'')],
      from_import w ''auxiliar'' [(''load_jets'', ''load_jets''), (''save_jets'', ''save_jets'')],
      def_get_config, assign_all]"
  let ?call = "ECall (loader w) [VStr ''bob.ip.gabor'', VStr (file_path w)]"
  have sp1: "exec (module_body w) s =
      (case exec ?A s of (Some e, t) \<Rightarrow> (Some e, t)
       | (None, t) \<Rightarrow> exec ([load_bob_library_stmt w] @ ?B) t)"
    by (simp only: body_split exec_append [of ?A])
  have sp2: "exec ([load_bob_library_stmt w] @ ?B) u =
      (case load_bob_library_stmt w u of (Some e, t) \<Rightarrow> (Some e, t) | (None, t) \<Rightarrow> exec ?B t)" for u
    by (simp only: exec_append [of "[load_bob_library_stmt w]"] exec_single)
  obtain rA tA where A: "exec ?A s = (rA, tA)" by (cases "exec ?A s")
  from followsD [OF deps_follow A] obtain ea where
    ea: "run_of w s rA tA ea"
      "prefix (filter is_step ea) [EImport ''bob.io.base'', EImport ''bob.sp'', EImport ''bob.extension'']"
      "rA = None \<longrightarrow> set [''bob.io.base'', ''bob.sp'', ''bob.extension''] \<subseteq> set (loaded tA)"
    by blast
  have na: "\<forall>f a. ECall f a \<notin> set ea"
    using no_call_in_steps [OF ea(2)] by simp
  from ea(1) have eva: "events tA = events s @ ea" by (simp add: run_of_def)
  show ?thesis
  proof (cases rA)
    case (Some e)
    with assms(2) A have "s' = tA" by (simp add: sp1 del: exec.simps(2))
    with eva na show ?thesis
      by (intro exI [of _ ea] exI [of _ "[]"]) simp
  next
    case None
    with assms(2) A have run: "exec ([load_bob_library_stmt w] @ ?B) tA = (r, s')"
      by (simp only: sp1 prod.case option.case)
    note l = after_deps [OF A [unfolded None] assms(1)]
    from ea(1,3) None have ex: "executed s ea ''bob.io.base''" "executed s ea ''bob.sp''"
      "executed s ea ''bob.extension''"
      by (simp_all add: run_of_def)
    obtain r4 t4 where r4: "load_bob_library_stmt w tA = (r4, t4)"
      by (cases "load_bob_library_stmt w tA")
    from load_bob_library_stmt_cases [OF r4 l(1,2)] consider
      (a) "r4 \<noteq> None" "t4 = tA" |
      (b) "t4 = tA\<lparr>events := events tA @ [?call]\<rparr>"
      by (auto simp: loader_def)
    then show ?thesis
    proof cases
      case a
      from a(1) obtain e4 where "r4 = Some e4" by (cases r4) auto
      with run r4 have "(Some e4, t4) = (r, s')"
        by (simp only: sp2 prod.case option.case)
      with a(2) have "s' = tA" by simp
      with eva na show ?thesis
        by (intro exI [of _ ea] exI [of _ "[]"]) simp
    next
      case b
      show ?thesis
      proof (cases r4)
        case (Some e4)
        with run r4 have "(Some e4, t4) = (r, s')"
          by (simp only: sp2 prod.case option.case)
        then have "s' = t4" by simp
        with b eva na ex show ?thesis
          by (intro exI [of _ ea] exI [of _ "[?call]"] exI [of _ "[]"]) simp
      next
        case None
        with run r4 have B: "exec ?B t4 = (r, s')"
          by (simp only: sp2 prod.case option.case)
        from load_bob_library_stmt_ok [OF r4 [unfolded None]] l(3)
        have "''version'' \<notin> fst ` set (ns t4)" by simp
        from followsD [OF rest_follows [OF this] B] obtain eb where
          eb: "run_of w t4 r s' eb"
            "prefix (filter is_step eb) ([EImport (submodule ''_library'')] @
               (if ''version'' \<in> fst ` set (star_names w (submodule ''_library'')) then []
                else [EImport (submodule ''version'')]) @
               [EImport (submodule ''version''), EImport (submodule ''version''),
                EImport (submodule ''auxiliar'')])"
          by blast
        have nb: "\<forall>f a. ECall f a \<notin> set eb"
          using no_call_in_steps [OF eb(2)] by simp
        from eb(1) have "events s' = events t4 @ eb" by (simp add: run_of_def)
        with b eva na nb ex show ?thesis
          by (intro exI [of _ ea] exI [of _ "[?call]"] exI [of _ eb]) simp
      qed
    qed
  qed
qed

lemma loader_call_ready:
  assumes "ns s = init_ns w" and "exec (module_body w) s = (r, s')"
    and "events s' = events s @ pre @ ECall f a # post"
  shows "executed s pre ''bob.io.base'' \<and> executed s pre ''bob.sp'' \<and>
    executed s pre ''bob.extension''"
proof -
  from body_events [OF assms(1,2)] obtain ea c eb where
    e: "events s' = events s @ ea @ c @ eb" and
    na: "\<forall>f a. ECall f a \<notin> set ea" and nb: "\<forall>f a. ECall f a \<notin> set eb" and
    c: "c = [] \<or> c = [ECall (loader w) [VStr ''bob.ip.gabor'', VStr (file_path w)]] \<and>
        executed s ea ''bob.io.base'' \<and> executed s ea ''bob.sp'' \<and>
        executed s ea ''bob.extension''"
    by blast
  from e assms(3) have eq: "ea @ c @ eb = pre @ ECall f a # post" by simp
  then have m: "ECall f a \<in> set (ea @ c @ eb)" by simp
  let ?call = "ECall (loader w) [VStr ''bob.ip.gabor'', VStr (file_path w)]"
  from m na nb c have c': "c = [?call]" and k: "ECall f a = ?call"
    and ex: "executed s ea ''bob.io.base'' \<and> executed s ea ''bob.sp'' \<and>
        executed s ea ''bob.extension''"
    by auto
  from eq c' k have "ea @ ?call # eb = pre @ ?call # post" by simp
  moreover from na nb have "?call \<notin> set ea" "?call \<notin> set eb" by simp_all
  ultimately have "ea = pre"
    by (simp add: append_Cons_eq_iff)
  with ex show ?thesis by simp
qed

lemma import_package_fst:
  "\<not> initialised s \<Longrightarrow> fst (import_package w s) = fst (exec (module_body w) (fresh_module w s))"
  by (simp add: import_package_def split: prod.split option.split)

lemma import_dotted_succeeds:
  assumes "exec_module w m = None"
  shows "\<exists>t. import_dotted w m s = (None, t)"
  using assms by (simp add: import_dotted_def import_module_def Let_def)

lemma deps_succeed:
  assumes "exec_module w ''bob.io.base'' = None" and "exec_module w ''bob.sp'' = None"
    and "exec_module w ''bob.extension'' = None"
  shows "\<exists>t. exec [import_dotted w ''bob.io.base'', import_dotted w ''bob.sp'',
      import_dotted w ''bob.extension''] s = (None, t)"
proof -
  from import_dotted_succeeds [OF assms(1)] obtain t1 where
    1: "import_dotted w ''bob.io.base'' s = (None, t1)" by blast
  from import_dotted_succeeds [OF assms(2)] obtain t2 where
    2: "import_dotted w ''bob.sp'' t1 = (None, t2)" by blast
  from import_dotted_succeeds [OF assms(3)] obtain t3 where
    3: "import_dotted w ''bob.extension'' t2 = (None, t3)" by blast
  from 1 2 3 show ?thesis by simp
qed

lemma loader_failure:
  assumes "ns s = init_ns w"
    and "exec_module w ''bob.io.base'' = None" and "exec_module w ''bob.sp'' = None"
    and "exec_module w ''bob.extension'' = None"
    and "attr_of w (VModule ''bob'') ''extension'' = Some x"
    and "attr_of w x ''load_bob_library'' = Some f"
    and "call_ext w f [VStr ''bob.ip.gabor'', VStr (file_path w)] = Inl e"
  shows "fst (exec (module_body w) s) = Some e"
proof -
  let ?A = "[import_dotted w ''bob.io.base'', import_dotted w ''bob.sp'',
      import_dotted w ''bob.extension'']"
  let ?B = "[from_import_star w ''_library'', from_package_import w ''version'',
      from_import w ''version'' [(''module'', ''__version__'')],
      from_import w ''version'' [(''api'', ''__api_version__'')],
      from_import w ''auxiliar'' [(''load_jets'', ''load_jets''), (''save_jets'', ''save_jets'')],
      def_get_config, assign_all]"
  from deps_succeed [OF assms(2-4)] obtain t where A: "exec ?A s = (None, t)" by blast
  note l = after_deps [OF A assms(1)]
  from l(1,2) assms(5-7) have 4: "load_bob_library_stmt w t =
      (Some e, t\<lparr>events := events t @ [ECall f [VStr ''bob.ip.gabor'', VStr (file_path w)]]\<rparr>)"
    by (simp add: load_bob_library_stmt_def load_name_def load_attr_def call_external_def)
  have "exec (module_body w) s =
      (case exec ?A s of (Some e, t) \<Rightarrow> (Some e, t)
       | (None, t) \<Rightarrow> exec ([load_bob_library_stmt w] @ ?B) t)"
    by (simp only: body_split exec_append [of ?A])
  also have "\<dots> = exec ([load_bob_library_stmt w] @ ?B) t"
    by (simp only: A prod.case option.case)
  also have "\<dots> = (case load_bob_library_stmt w t of (Some e, t) \<Rightarrow> (Some e, t)
      | (None, t) \<Rightarrow> exec ?B t)"
    by (simp only: exec_append [of "[load_bob_library_stmt w]"] exec_single)
  finally show ?thesis by (simp only: 4 prod.case option.case fst_conv)
qed

lemma first_import_failure:
  assumes "''bob.io.base'' \<notin> set (loaded s)" and "exec_module w ''bob.io.base'' = Some e"
  shows "fst (exec (module_body w) s) = Some e"
proof -
  from assms obtain t where "import_dotted w ''bob.io.base'' s = (Some e, t)"
    by (simp add: import_dotted_def import_module_def Let_def)
  then show ?thesis by (simp add: module_body_def preamble_def)
qed

lemma get_config_forward:
  assumes "map_of (ns t) ''bob'' = Some b" and "attr_of w b ''extension'' = Some x"
    and "attr_of w x ''get_config'' = Some f" and "map_of (ns t) ''__name__'' = Some n"
    and "map_of (ns t) ''version'' = Some v" and "attr_of w v ''externals'' = Some ext"
    and "attr_of w v ''api'' = Some api" and "call_ext w f [n, ext, api] = Inl e"
  shows "fst (get_config w t) = Inl e"
  using get_config_eval [OF assms(1-7)] assms(8) by simp

subsection \<open>How often a name is bound\<close>

lemma count_distinct: "distinct xs \<Longrightarrow> count_list xs x = (if x \<in> set xs then 1 else 0)"
  by (induction xs) auto

lemma count_if: "count_list (if b then [c] else []) n = (if b \<and> c = n then 1 else 0)"
  by simp

lemma set_if: "n \<in> set (if b then [c] else []) \<longleftrightarrow> b \<and> n = c"
  by auto

lemma preamble_counts:
  assumes "exec (preamble w) s = (None, p)" and "stores s = []"
    and d: "distinct (map fst (star_names w (submodule ''_library'')))"
    and x: "fst ` set (star_names w (submodule ''_library'')) \<inter>
      {''bob'', ''_library'', ''version'', ''__version__'', ''__api_version__'', ''auxiliar'',
       ''load_jets'', ''save_jets'', ''get_config'', ''__all__''} = {}"
  shows "count_list (map fst (stores p)) ''bob'' = 3"
    and "count_list (map fst (stores p)) ''version'' = 1 \<or>
         count_list (map fst (stores p)) ''version'' = 2"
    and "count_list (map fst (stores p)) ''__all__'' = 0"
    and "\<And>n. n \<in> fst ` set (stores p) \<Longrightarrow> n \<noteq> ''bob'' \<Longrightarrow> n \<noteq> ''version'' \<Longrightarrow>
          count_list (map fst (stores p)) n = 1"
proof -
  let ?star = "star_names w (submodule ''_library'')"
  from preamble_effect [OF assms(1)] obtain b5 b6 b7 b8 b9 v6 vm va f g and u :: state where
    su: "stores u = stores s @ [(''bob'', VModule ''bob''), (''bob'', VModule ''bob''),
        (''bob'', VModule ''bob'')] @ maybe_store b5 ''_library''" and
    sp: "stores p = stores u @ ?star @ maybe_store b6 ''version'' @
       [(''version'', v6)] @ maybe_store b7 ''version'' @ [(''__version__'', vm)] @
       maybe_store b8 ''version'' @ [(''__api_version__'', va)] @ maybe_store b9 ''auxiliar'' @
       [(''load_jets'', f), (''save_jets'', g), (''get_config'', VFunc pkg_name ''get_config'')]" and
    fr: "b6 \<longrightarrow> \<not> b7" "\<not> b8"
    by blast
  from x have nx: "''bob'' \<notin> fst ` set ?star" "''_library'' \<notin> fst ` set ?star"
    "''version'' \<notin> fst ` set ?star" "''__version__'' \<notin> fst ` set ?star"
    "''__api_version__'' \<notin> fst ` set ?star" "''auxiliar'' \<notin> fst ` set ?star"
    "''load_jets'' \<notin> fst ` set ?star" "''save_jets'' \<notin> fst ` set ?star"
    "''get_config'' \<notin> fst ` set ?star" "''__all__'' \<notin> fst ` set ?star"
    by auto
  have cs: "count_list (map fst ?star) n = (if n \<in> fst ` set ?star then 1 else 0)" for n
    using count_distinct [OF d, of n] by simp
  have ms: "map fst (maybe_store b c) = (if b then [c] else [])" for b c
    by (simp add: maybe_store_def)
  have k: "map fst (stores p) = [''bob'', ''bob'', ''bob''] @ (if b5 then [''_library''] else []) @
      map fst ?star @ (if b6 then [''version''] else []) @ [''version''] @
      (if b7 then [''version''] else []) @ [''__version__''] @
      (if b8 then [''version''] else []) @ [''__api_version__''] @
      (if b9 then [''auxiliar''] else []) @ [''load_jets'', ''save_jets'', ''get_config'']"
    by (simp add: sp su assms(2) ms)
  have c: "count_list (map fst (stores p)) n =
      count_list [''bob'', ''bob'', ''bob''] n + (if b5 \<and> ''_library'' = n then 1 else 0) +
      (if n \<in> fst ` set ?star then 1 else 0) + (if b6 \<and> ''version'' = n then 1 else 0) +
      count_list [''version''] n + (if b7 \<and> ''version'' = n then 1 else 0) +
      count_list [''__version__''] n + (if b8 \<and> ''version'' = n then 1 else 0) +
      count_list [''__api_version__''] n + (if b9 \<and> ''auxiliar'' = n then 1 else 0) +
      count_list [''load_jets'', ''save_jets'', ''get_config''] n" for n
    by (simp only: k count_list_append count_if cs add.assoc)
  have m: "n \<in> fst ` set (stores p) \<longleftrightarrow>
      n = ''bob'' \<or> b5 \<and> n = ''_library'' \<or> n \<in> fst ` set ?star \<or> n = ''version'' \<or>
      n = ''__version__'' \<or> n = ''__api_version__'' \<or> b9 \<and> n = ''auxiliar'' \<or>
      n = ''load_jets'' \<or> n = ''save_jets'' \<or> n = ''get_config''" for n
  proof -
    have "n \<in> fst ` set (stores p) \<longleftrightarrow> n \<in> set (map fst (stores p))" by simp
    also have "\<dots> \<longleftrightarrow> n \<in> set [''bob'', ''bob'', ''bob''] \<or> b5 \<and> n = ''_library'' \<or>
        n \<in> set (map fst ?star) \<or> b6 \<and> n = ''version'' \<or> n \<in> set [''version''] \<or>
        b7 \<and> n = ''version'' \<or> n \<in> set [''__version__''] \<or> b8 \<and> n = ''version'' \<or>
        n \<in> set [''__api_version__''] \<or> b9 \<and> n = ''auxiliar'' \<or>
        n \<in> set [''load_jets'', ''save_jets'', ''get_config'']"
      by (simp only: k set_append Un_iff set_if)
    also have "\<dots> \<longleftrightarrow> n = ''bob'' \<or> b5 \<and> n = ''_library'' \<or> n \<in> fst ` set ?star \<or>
        n = ''version'' \<or> n = ''__version__'' \<or> n = ''__api_version__'' \<or>
        b9 \<and> n = ''auxiliar'' \<or> n = ''load_jets'' \<or> n = ''save_jets'' \<or> n = ''get_config''"
      by auto
    finally show ?thesis .
  qed
  show "count_list (map fst (stores p)) ''bob'' = 3"
    using nx(1) by (simp add: c)
  show "count_list (map fst (stores p)) ''version'' = 1 \<or>
         count_list (map fst (stores p)) ''version'' = 2"
    using nx(3) fr by (simp add: c)
  show "count_list (map fst (stores p)) ''__all__'' = 0"
    using nx(10) by (simp add: c)
  show "count_list (map fst (stores p)) n = 1"
    if "n \<in> fst ` set (stores p)" "n \<noteq> ''bob''" "n \<noteq> ''version''" for n
  proof -
    from that m [of n] consider
      (lib) "b5" "n = ''_library''" | (star) "n \<in> fst ` set ?star" |
      (v) "n = ''__version__''" | (a) "n = ''__api_version__''" |
      (aux) "b9" "n = ''auxiliar''" | (l) "n = ''load_jets''" | (s) "n = ''save_jets''" |
      (g) "n = ''get_config''"
      by blast
    then show ?thesis
    proof cases
      case lib
      with nx(2) show ?thesis by (simp add: c)
    next
      case star
      with nx have ne: "n \<noteq> ''bob''" "n \<noteq> ''_library''" "n \<noteq> ''version''" "n \<noteq> ''__version__''"
        "n \<noteq> ''__api_version__''" "n \<noteq> ''auxiliar''" "n \<noteq> ''load_jets''" "n \<noteq> ''save_jets''"
        "n \<noteq> ''get_config''" "n \<noteq> ''__all__''"
        by (metis)+
      then have "''bob'' \<noteq> n" "''_library'' \<noteq> n" "''version'' \<noteq> n" "''__version__'' \<noteq> n"
        "''__api_version__'' \<noteq> n" "''auxiliar'' \<noteq> n" "''load_jets'' \<noteq> n" "''save_jets'' \<noteq> n"
        "''get_config'' \<noteq> n"
        by (simp_all add: eq_commute [of _ n])
      with star show ?thesis by (simp add: c)
    next
      case v
      with nx(4) show ?thesis by (simp add: c)
    next
      case a
      with nx(5) show ?thesis by (simp add: c)
    next
      case aux
      with nx(6) show ?thesis by (simp add: c)
    next
      case l
      with nx(7) show ?thesis by (simp add: c)
    next
      case s
      with nx(8) show ?thesis by (simp add: c)
    next
      case g
      with nx(9) show ?thesis by (simp add: c)
    qed
  qed
qed

subsection \<open>Running the body again\<close>





















subsection \<open>The concrete environments\<close>

lemma w0_events:
  "events (snd (import_package w0 s0)) =
     [EImport ''bob.io.base'', EDep ''bob'', EDep ''bob.io'', EDep ''bob.extension'',
      ELoad ''bob.io.base'', EImport ''bob.sp'', ELoad ''bob.sp'', EImport ''bob.extension'',
      ECall (VFunc ''bob.extension'' ''load_bob_library'')
        [VStr ''bob.ip.gabor'', VStr ''/site/bob/ip/gabor/__init__.py''],
      EImport ''bob.ip.gabor._library'', ELoad ''bob.ip.gabor._library'',
      EImport ''bob.ip.gabor.version'', ELoad ''bob.ip.gabor.version'',
      EImport ''bob.ip.gabor.version'', EImport ''bob.ip.gabor.version'',
      EImport ''bob.ip.gabor.auxiliar'', ELoad ''bob.ip.gabor.auxiliar'']"
  by code_simp

lemma w0_load_jets_stored:
  "(''load_jets'', VFunc ''bob.ip.gabor.auxiliar'' ''load_jets'') \<in>
     set (stores (snd (import_package w0 s0)))"
  by code_simp



lemma w1_events:
  "events (snd (import_package w1 s0)) =
     [EImport ''bob.io.base'', EDep ''bob'', EDep ''bob.io'', EDep ''bob.extension'',
      ELoad ''bob.io.base'', EImport ''bob.sp'', ELoad ''bob.sp'', EImport ''bob.extension'',
      ECall (VFunc ''bob.extension'' ''load_bob_library'')
        [VStr ''bob.ip.gabor'', VStr ''/site/bob/ip/gabor/__init__.py''],
      EImport ''bob.ip.gabor._library'', ELoad ''bob.ip.gabor._library'']"
  by code_simp

lemma w1_get_config:
  "fst (get_config w1 (snd (import_package w0 s0))) = Inl (Raised ''DistributionNotFound'')"
  by code_simp

lemma w2_last:
  "last (events (snd (import_package w2 s0))) =
     ECall (VFunc ''bob.extension'' ''load_bob_library'')
       [VStr ''bob.ip.gabor'', VStr ''/site/bob/ip/gabor/__init__.py'']"
  by code_simp

section \<open>The claims\<close>

text \<open>
  C1. After the package has been initialised, \<^verbatim>\<open>__all__\<close> is the list of the names that are
  bound in the module namespace at the point where \<^verbatim>\<open>__all__\<close> is computed (the state \<open>p\<close>
  after lines 2 to 18) and do not start with an underscore: no name with a leading underscore
  is in it, and every other name bound at that point is. The assignment itself adds only the
  name \<^verbatim>\<open>__all__\<close>, so the same holds of the final namespace. The list is sorted and has no
  name twice.
\<close>

theorem all_is_public_names:
  assumes "import_package w s = (None, s')" and "\<not> initialised s"
  shows "\<exists>p xs. exec (preamble w) (fresh_module w s) = (None, p) \<and>
     map_of (ns s') ''__all__'' = Some (VList (map VStr xs)) \<and>
     set xs = {n \<in> fst ` set (ns p). \<not> startswith n ''_''} \<and>
     set xs = {n \<in> fst ` set (ns s'). \<not> startswith n ''_''} \<and>
     distinct xs \<and> sorted xs"
proof -
  from import_package_ok [OF assms] obtain p where
    p: "exec (preamble w) (fresh_module w s) = (None, p)" and
    s': "s' = (bind_name ''__all__'' (VList (map VStr (public_names p))) p)\<lparr>initialised := True\<rparr>"
    by blast
  have d: "distinct (map fst (ns p))"
    by (rule preamble_distinct [OF p]) (simp add: fresh_module_def init_ns_distinct)
  have 1: "map_of (ns s') ''__all__'' = Some (VList (map VStr (public_names p)))"
    by (simp add: s' update_conv')
  have "fst ` set (ns s') = insert ''__all__'' (fst ` set (ns p))"
    by (simp add: s' dom_update)
  moreover have "startswith ''__all__'' ''_''"
    by (simp add: startswith_def)
  ultimately have 2: "{n \<in> fst ` set (ns s'). \<not> startswith n ''_''} =
      {n \<in> fst ` set (ns p). \<not> startswith n ''_''}"
    by auto
  show ?thesis
    apply (rule exI [of _ p], rule exI [of _ "public_names p"])
    using p 1 2 public_names_set [of p] public_names_sorted [of p] public_names_distinct [OF d]
    apply simp
    done
qed

theorem all_is_public_names_witness:
  "import_package w0 s0 = (None, snd (import_package w0 s0)) \<and> \<not> initialised s0 \<and>
   (\<exists>p xs. exec (preamble w0) (fresh_module w0 s0) = (None, p) \<and>
     map_of (ns (snd (import_package w0 s0))) ''__all__'' = Some (VList (map VStr xs)) \<and>
     set xs = {n \<in> fst ` set (ns p). \<not> startswith n ''_''} \<and>
     set xs = {n \<in> fst ` set (ns (snd (import_package w0 s0))). \<not> startswith n ''_''} \<and>
     distinct xs \<and> sorted xs) \<and>
   map_of (ns (snd (import_package w0 s0))) ''__all__'' =
     Some (VList (map VStr [''Graph'', ''Jet'', ''Similarity'', ''Transform'', ''Wavelet'',
       ''auxiliar'', ''bob'', ''get_config'', ''load_jets'', ''save_jets'', ''version'']))"
  using all_is_public_names [OF w0_result s0_fresh] w0_result s0_fresh w0_all by simp

text \<open>
  C2. \<^verbatim>\<open>get_config\<close> takes no argument (a call with one raises a type error) and returns what
  the formatting utility \<^verbatim>\<open>bob.extension.get_config\<close> returns for exactly the three arguments
  the module's name, \<^verbatim>\<open>version.externals\<close> and \<^verbatim>\<open>version.api\<close>, in that order; the only
  effect of the call is that one call of the utility. The function looks \<^verbatim>\<open>bob\<close>,
  \<^verbatim>\<open>__name__\<close> and \<^verbatim>\<open>version\<close> up in the namespace when it is called, so the statement is
  for a native library whose wildcard import does not rebind these three names.
\<close>

theorem get_config_delegates:
  assumes "import_package w s = (None, s')" and "\<not> initialised s"
    and "''bob'' \<notin> fst ` set (star_names w (submodule ''_library''))"
    and "''__name__'' \<notin> fst ` set (star_names w (submodule ''_library''))"
    and "''version'' \<notin> fst ` set (star_names w (submodule ''_library''))"
    and "attr_of w (VModule ''bob'') ''extension'' = Some x"
    and "attr_of w x ''get_config'' = Some f"
    and "attr_of w (VModule (submodule ''version'')) ''externals'' = Some ext"
    and "attr_of w (VModule (submodule ''version'')) ''api'' = Some api"
  shows "map_of (ns s') ''get_config'' = Some (VFunc pkg_name ''get_config'') \<and>
     call_value w (VFunc pkg_name ''get_config'') [] s' =
       (call_ext w f [VStr ''bob.ip.gabor'', ext, api],
        s'\<lparr>events := events s' @ [ECall f [VStr ''bob.ip.gabor'', ext, api]]\<rparr>) \<and>
     (\<forall>a args. fst (call_value w (VFunc pkg_name ''get_config'') (a # args) s') =
        Inl (TypeError ''get_config''))"
proof -
  define p where "p = snd (exec (preamble w) (fresh_module w s))"
  note sm = import_package_summary [OF assms(1,2), folded p_def]
  from preamble_lookups [OF sm(1,2)] assms(3-5) have
    "map_of (ns p) ''get_config'' = Some (VFunc pkg_name ''get_config'')"
    "map_of (ns p) ''bob'' = Some (VModule ''bob'')"
    "map_of (ns p) ''__name__'' = Some (VStr pkg_name)"
    "map_of (ns p) ''version'' = Some (VModule (submodule ''version''))"
    by blast+
  then have l: "map_of (ns s') ''get_config'' = Some (VFunc pkg_name ''get_config'')"
    "map_of (ns s') ''bob'' = Some (VModule ''bob'')"
    "map_of (ns s') ''__name__'' = Some (VStr ''bob.ip.gabor'')"
    "map_of (ns s') ''version'' = Some (VModule (submodule ''version''))"
    by (simp_all add: sm(4) pkg_name_def)
  from get_config_eval [OF l(2) assms(6,7) l(3,4) assms(8,9)] l(1) show ?thesis
    by (simp add: call_value_def)
qed

theorem get_config_delegates_witness:
  "import_package w0 s0 = (None, snd (import_package w0 s0)) \<and> \<not> initialised s0 \<and>
   ''bob'' \<notin> fst ` set (star_names w0 (submodule ''_library'')) \<and>
   ''__name__'' \<notin> fst ` set (star_names w0 (submodule ''_library'')) \<and>
   ''version'' \<notin> fst ` set (star_names w0 (submodule ''_library'')) \<and>
   fst (call_value w0 (VFunc pkg_name ''get_config'') [] (snd (import_package w0 s0))) =
     call_ext w0 (VFunc ''bob.extension'' ''get_config'') [VStr ''bob.ip.gabor'', VObj 7, VObj 512] \<and>
   call_ext w0 (VFunc ''bob.extension'' ''get_config'') [VStr ''bob.ip.gabor'', VObj 7, VObj 512] =
     Inr (VStr ''bob.ip.gabor: 2.0.0'') \<and>
   fst (call_value w0 (VFunc pkg_name ''get_config'') [VNone] (snd (import_package w0 s0))) =
     Inl (TypeError ''get_config'')"
proof -
  have star: "''bob'' \<notin> fst ` set (star_names w0 (submodule ''_library''))"
    "''__name__'' \<notin> fst ` set (star_names w0 (submodule ''_library''))"
    "''version'' \<notin> fst ` set (star_names w0 (submodule ''_library''))"
    by (simp_all add: w0_def lib_names_def submodule_def pkg_name_def)
  have a: "attr_of w0 (VModule ''bob'') ''extension'' = Some (VModule ''bob.extension'')"
    "attr_of w0 (VModule ''bob.extension'') ''get_config'' = Some (VFunc ''bob.extension'' ''get_config'')"
    "attr_of w0 (VModule (submodule ''version'')) ''externals'' = Some (VObj 7)"
    "attr_of w0 (VModule (submodule ''version'')) ''api'' = Some (VObj 512)"
    by (simp_all add: w0_def attrs0_def submodule_def pkg_name_def)
  have c: "call_ext w0 (VFunc ''bob.extension'' ''get_config'') [VStr ''bob.ip.gabor'', VObj 7, VObj 512] =
     Inr (VStr ''bob.ip.gabor: 2.0.0'')"
    by (simp add: w0_def)
  from get_config_delegates [OF w0_result s0_fresh star a] star c w0_result s0_fresh
  show ?thesis by simp
qed

text \<open>
  C3. The steps of the body are what its statements do outside the namespace: they ask the
  import system for a module, or they call a function. Every import of the package that runs
  the module body takes its steps in the order of \<open>schedule\<close>: it asks for the dependencies
  \<^verbatim>\<open>bob.io.base\<close> and \<^verbatim>\<open>bob.sp\<close> and for \<^verbatim>\<open>bob.extension\<close>, then it calls the extension
  loader with the package name \<^verbatim>\<open>'bob.ip.gabor'\<close> and the file of the package, then it asks
  for the native library \<^verbatim>\<open>_library\<close> for the wildcard import, then for \<^verbatim>\<open>version\<close>, then
  for \<^verbatim>\<open>auxiliar\<close> for \<^verbatim>\<open>load_jets\<close> and \<^verbatim>\<open>save_jets\<close>. Whatever the outcome, the steps
  of a run are an initial segment of this list, so no step is taken before an earlier one.
  Which modules the import system executes in answer, and in which order, is not fixed by the
  file (a dependency may import another one itself); but at the call of the loader each of
  \<^verbatim>\<open>bob.io.base\<close>, \<^verbatim>\<open>bob.sp\<close> and \<^verbatim>\<open>bob.extension\<close> has been executed: it was in
  \<^verbatim>\<open>sys.modules\<close> at the start, or its execution is among the effects before the call. A run
  that succeeds takes the whole list, leaves the six modules in \<^verbatim>\<open>sys.modules\<close>, and makes
  its bindings in the order of the re-export: first \<^verbatim>\<open>bob\<close> (and \<^verbatim>\<open>_library\<close>), then the
  names of the wildcard import, and at the end \<^verbatim>\<open>load_jets\<close>, \<^verbatim>\<open>save_jets\<close>,
  \<^verbatim>\<open>get_config\<close> and \<^verbatim>\<open>__all__\<close>.
\<close>

theorem initialisation_order:
  assumes "\<not> initialised s" and "import_package w s = (r, s')"
  shows "\<exists>evs. events s' = events s @ evs \<and>
     prefix (filter is_step evs) (schedule w) \<and>
     (\<forall>pre f a post. evs = pre @ ECall f a # post \<longrightarrow>
        executed s pre ''bob.io.base'' \<and> executed s pre ''bob.sp'' \<and>
        executed s pre ''bob.extension'') \<and>
     (r = None \<longrightarrow>
        filter is_step evs = schedule w \<and>
        set [''bob.io.base'', ''bob.sp'', ''bob.extension'', submodule ''_library'',
          submodule ''version'', submodule ''auxiliar''] \<subseteq> set (loaded s') \<and>
        (\<exists>pre mid f g a.
           set pre \<subseteq> {(''bob'', VModule ''bob''), (''_library'', VModule (submodule ''_library''))} \<and>
           stores s' = pre @ star_names w (submodule ''_library'') @ mid @
             [(''load_jets'', f), (''save_jets'', g),
              (''get_config'', VFunc pkg_name ''get_config''), (''__all__'', a)]))"
proof -
  from import_package_events [OF assms] obtain t where
    t: "exec (module_body w) (fresh_module w s) = (r, t)" "events s' = events t"
      "case r of None \<Rightarrow> s' = t\<lparr>initialised := True\<rparr> | Some e \<Rightarrow> s' = t\<lparr>ns := []\<rparr>"
    by blast
  have n: "ns (fresh_module w s) = init_ns w" by (simp add: fresh_module_def)
  have f: "events (fresh_module w s) = events s" by (simp add: fresh_module_def)
  from followsD [OF body_follows [OF n] t(1)] obtain evs where
    evs: "run_of w (fresh_module w s) r t evs" "prefix (filter is_step evs) (schedule w)"
      "r = None \<longrightarrow> filter is_step evs = schedule w \<and>
         set [''bob.io.base'', ''bob.sp'', ''bob.extension'', submodule ''_library'',
           submodule ''version'', submodule ''auxiliar''] \<subseteq> set (loaded t)"
    by blast
  from evs(1) t(2) f have 1: "events s' = events s @ evs" by (simp add: run_of_def)
  have 2: "executed s pre ''bob.io.base'' \<and> executed s pre ''bob.sp'' \<and>
        executed s pre ''bob.extension''" if "evs = pre @ ECall f a # post" for pre f a post
  proof -
    from that 1 t(2) f have "events t = events (fresh_module w s) @ pre @ ECall f a # post"
      by simp
    from loader_call_ready [OF n t(1) this] show ?thesis by (simp add: executed_fresh)
  qed
  have 3: "\<exists>pre mid f g a.
      set pre \<subseteq> {(''bob'', VModule ''bob''), (''_library'', VModule (submodule ''_library''))} \<and>
      stores s' = pre @ star_names w (submodule ''_library'') @ mid @
        [(''load_jets'', f), (''save_jets'', g),
         (''get_config'', VFunc pkg_name ''get_config''), (''__all__'', a)]"
    if "r = None"
  proof -
    from that assms(2) have ok: "import_package w s = (None, s')" by simp
    note sm = import_package_summary [OF ok assms(1)]
    have "stores (fresh_module w s) = []" by (simp add: fresh_module_def)
    from preamble_stores_order [OF sm(1) this] obtain pre mid f g where
      "set pre \<subseteq> {(''bob'', VModule ''bob''), (''_library'', VModule (submodule ''_library''))}"
      "stores (snd (exec (preamble w) (fresh_module w s))) =
         pre @ star_names w (submodule ''_library'') @ mid @
         [(''load_jets'', f), (''save_jets'', g), (''get_config'', VFunc pkg_name ''get_config'')]"
      by blast
    then show ?thesis
      by (intro exI [of _ pre] exI [of _ mid] exI [of _ f] exI [of _ g] exI) (simp add: sm(7))
  qed
  have 4: "set [''bob.io.base'', ''bob.sp'', ''bob.extension'', submodule ''_library'',
          submodule ''version'', submodule ''auxiliar''] \<subseteq> set (loaded s')" if "r = None"
    using that evs(3) t(3) by simp
  from 1 evs(2,3) 2 3 4 show ?thesis
    by (intro exI [of _ evs]) blast
qed

theorem initialisation_order_witness:
  "\<not> initialised s0 \<and> import_package w0 s0 = (None, snd (import_package w0 s0)) \<and>
   filter is_step (events (snd (import_package w0 s0))) = schedule w0 \<and>
   executed s0 [EImport ''bob.io.base'', EDep ''bob'', EDep ''bob.io'', EDep ''bob.extension'',
     ELoad ''bob.io.base'', EImport ''bob.sp'', ELoad ''bob.sp'', EImport ''bob.extension'']
     ''bob.extension'' \<and>
   events (snd (import_package w0 s0)) =
     [EImport ''bob.io.base'', EDep ''bob'', EDep ''bob.io'', EDep ''bob.extension'',
      ELoad ''bob.io.base'', EImport ''bob.sp'', ELoad ''bob.sp'', EImport ''bob.extension'',
      ECall (VFunc ''bob.extension'' ''load_bob_library'')
        [VStr ''bob.ip.gabor'', VStr ''/site/bob/ip/gabor/__init__.py''],
      EImport ''bob.ip.gabor._library'', ELoad ''bob.ip.gabor._library'',
      EImport ''bob.ip.gabor.version'', ELoad ''bob.ip.gabor.version'',
      EImport ''bob.ip.gabor.version'', EImport ''bob.ip.gabor.version'',
      EImport ''bob.ip.gabor.auxiliar'', ELoad ''bob.ip.gabor.auxiliar'']"
proof -
  from initialisation_order [OF s0_fresh w0_result] obtain evs where
    e: "events (snd (import_package w0 s0)) = events s0 @ evs"
      "\<forall>pre f a post. evs = pre @ ECall f a # post \<longrightarrow>
        executed s0 pre ''bob.io.base'' \<and> executed s0 pre ''bob.sp'' \<and>
        executed s0 pre ''bob.extension''"
      "filter is_step evs = schedule w0"
    by blast
  from e(1) have evs: "evs = events (snd (import_package w0 s0))" by (simp add: s0_def)
  let ?pre = "[EImport ''bob.io.base'', EDep ''bob'', EDep ''bob.io'', EDep ''bob.extension'',
     ELoad ''bob.io.base'', EImport ''bob.sp'', ELoad ''bob.sp'', EImport ''bob.extension'']"
  have "evs = ?pre @ ECall (VFunc ''bob.extension'' ''load_bob_library'')
        [VStr ''bob.ip.gabor'', VStr ''/site/bob/ip/gabor/__init__.py''] #
      [EImport ''bob.ip.gabor._library'', ELoad ''bob.ip.gabor._library'',
       EImport ''bob.ip.gabor.version'', ELoad ''bob.ip.gabor.version'',
       EImport ''bob.ip.gabor.version'', EImport ''bob.ip.gabor.version'',
       EImport ''bob.ip.gabor.auxiliar'', ELoad ''bob.ip.gabor.auxiliar'']"
    by (simp add: evs w0_events)
  with e(2) have "executed s0 ?pre ''bob.extension''" by blast
  with e(3) evs s0_fresh w0_result w0_events show ?thesis by simp
qed

text \<open>
  C4. After a successful import \<^verbatim>\<open>load_jets\<close> and \<^verbatim>\<open>save_jets\<close> are bound in the namespace
  of the package, each to the very object that the module \<^verbatim>\<open>auxiliar\<close> holds under that name.
\<close>

theorem reexported_helpers:
  assumes "import_package w s = (None, s')" and "\<not> initialised s"
  shows "\<exists>f g. attr_of w (VModule (submodule ''auxiliar'')) ''load_jets'' = Some f \<and>
     attr_of w (VModule (submodule ''auxiliar'')) ''save_jets'' = Some g \<and>
     map_of (ns s') ''load_jets'' = Some f \<and> map_of (ns s') ''save_jets'' = Some g"
proof -
  define p where "p = snd (exec (preamble w) (fresh_module w s))"
  note sm = import_package_summary [OF assms, folded p_def]
  note p = sm(1,2) and l = sm(4)
  from preamble_lookups [OF p] obtain f g where
    "attr_of w (VModule (submodule ''auxiliar'')) ''load_jets'' = Some f"
    "attr_of w (VModule (submodule ''auxiliar'')) ''save_jets'' = Some g"
    "map_of (ns p) ''load_jets'' = Some f" "map_of (ns p) ''save_jets'' = Some g"
    by blast
  with l show ?thesis by simp
qed

theorem reexported_helpers_witness:
  "import_package w0 s0 = (None, snd (import_package w0 s0)) \<and> \<not> initialised s0 \<and>
   attr_of w0 (VModule (submodule ''auxiliar'')) ''load_jets'' =
     Some (VFunc ''bob.ip.gabor.auxiliar'' ''load_jets'') \<and>
   attr_of w0 (VModule (submodule ''auxiliar'')) ''save_jets'' =
     Some (VFunc ''bob.ip.gabor.auxiliar'' ''save_jets'') \<and>
   map_of (ns (snd (import_package w0 s0))) ''load_jets'' =
     Some (VFunc ''bob.ip.gabor.auxiliar'' ''load_jets'') \<and>
   map_of (ns (snd (import_package w0 s0))) ''save_jets'' =
     Some (VFunc ''bob.ip.gabor.auxiliar'' ''save_jets'')"
proof -
  have a: "attr_of w0 (VModule (submodule ''auxiliar'')) ''load_jets'' =
     Some (VFunc ''bob.ip.gabor.auxiliar'' ''load_jets'')"
    "attr_of w0 (VModule (submodule ''auxiliar'')) ''save_jets'' =
     Some (VFunc ''bob.ip.gabor.auxiliar'' ''save_jets'')"
    by (simp_all add: w0_def attrs0_def submodule_def pkg_name_def)
  from reexported_helpers [OF w0_result s0_fresh] a w0_result s0_fresh show ?thesis by simp
qed

text \<open>
  C5. No failure of a collaborator is caught. Of the effects of a run of the body (the
  execution of a module that a statement asked for, the call of the loader) none but the
  last one fails, and when the last one fails the import raises exactly its error: nothing is
  tried again and nothing runs after it. In particular, when \<^verbatim>\<open>bob.io.base\<close> is not loaded
  and its execution fails, the import raises that error; and when the three modules of lines
  2, 3 and 6 load and the call of \<^verbatim>\<open>load_bob_library\<close> raises, the import raises that error.
  An import that raises leaves the package unregistered and no namespace, and its error is
  the collaborator's own (the failing module's or the called function's, as the last effect)
  or the interpreter's error for an attribute that is missing. The configuration is formatted
  when \<^verbatim>\<open>get_config\<close> is called, not at import: when the formatting utility raises,
  \<^verbatim>\<open>get_config\<close> raises the same error, and an error of \<^verbatim>\<open>get_config\<close> is the utility's,
  raised by its one call, or the interpreter's for a missing name or attribute.
\<close>

theorem failure_propagates:
  assumes "\<not> initialised s" and "import_package w s = (r, s')"
  shows "(\<exists>evs. events s' = events s @ evs \<and>
        (\<forall>x \<in> set (butlast evs). outcome w x = None) \<and>
        (\<forall>e. evs \<noteq> [] \<and> outcome w (last evs) = Some e \<longrightarrow> r = Some e)) \<and>
     (\<forall>e. ''bob.io.base'' \<notin> set (loaded s) \<and> exec_module w ''bob.io.base'' = Some e \<longrightarrow>
        r = Some e) \<and>
     (\<forall>x f e. exec_module w ''bob.io.base'' = None \<and> exec_module w ''bob.sp'' = None \<and>
        exec_module w ''bob.extension'' = None \<and>
        attr_of w (VModule ''bob'') ''extension'' = Some x \<and>
        attr_of w x ''load_bob_library'' = Some f \<and>
        call_ext w f [VStr ''bob.ip.gabor'', VStr (file_path w)] = Inl e \<longrightarrow> r = Some e) \<and>
     (\<forall>e. r = Some e \<longrightarrow> \<not> initialised s' \<and> ns s' = [] \<and>
        ((\<exists>m. exec_module w m = Some e \<and> events s' \<noteq> [] \<and> last (events s') = ELoad m) \<or>
         (\<exists>f args. call_ext w f args = Inl e \<and> events s' \<noteq> [] \<and>
            last (events s') = ECall f args) \<or>
         (\<exists>v a. attr_of w v a = None \<and> e = AttributeError v a) \<or>
         (\<exists>m a. attr_of w (VModule m) a = None \<and> e = ImportError m a))) \<and>
     (\<forall>t b x f n v ext api e'. map_of (ns t) ''bob'' = Some b \<and>
        attr_of w b ''extension'' = Some x \<and> attr_of w x ''get_config'' = Some f \<and>
        map_of (ns t) ''__name__'' = Some n \<and> map_of (ns t) ''version'' = Some v \<and>
        attr_of w v ''externals'' = Some ext \<and> attr_of w v ''api'' = Some api \<and>
        call_ext w f [n, ext, api] = Inl e' \<longrightarrow> fst (get_config w t) = Inl e') \<and>
     (\<forall>t e'. fst (get_config w t) = Inl e' \<longrightarrow>
        (\<exists>f args. call_ext w f args = Inl e' \<and>
            events (snd (get_config w t)) = events t @ [ECall f args]) \<or>
        (\<exists>n. map_of (ns t) n = None \<and> e' = NameError n) \<or>
        (\<exists>v a. attr_of w v a = None \<and> e' = AttributeError v a))"
proof -
  from import_package_events [OF assms] obtain t where
    t: "exec (module_body w) (fresh_module w s) = (r, t)" "events s' = events t"
    by blast
  have n: "ns (fresh_module w s) = init_ns w" by (simp add: fresh_module_def)
  have f: "events (fresh_module w s) = events s" "loaded (fresh_module w s) = loaded s"
    by (simp_all add: fresh_module_def)
  from assms(2) have r: "r = fst (import_package w s)" by simp
  from followsD [OF body_follows [OF n] t(1)] obtain evs where
    "run_of w (fresh_module w s) r t evs" by blast
  with t(2) f have 1: "\<exists>evs. events s' = events s @ evs \<and>
        (\<forall>x \<in> set (butlast evs). outcome w x = None) \<and>
        (\<forall>e. evs \<noteq> [] \<and> outcome w (last evs) = Some e \<longrightarrow> r = Some e)"
    by (intro exI [of _ evs]) (simp add: run_of_def)
  have 2: "r = Some e" if "''bob.io.base'' \<notin> set (loaded s) \<and> exec_module w ''bob.io.base'' = Some e"
    for e
    using first_import_failure [of "fresh_module w s" w e] that f
    by (simp add: r import_package_fst [OF assms(1)])
  have 3: "r = Some e" if "exec_module w ''bob.io.base'' = None \<and> exec_module w ''bob.sp'' = None \<and>
        exec_module w ''bob.extension'' = None \<and>
        attr_of w (VModule ''bob'') ''extension'' = Some x \<and>
        attr_of w x ''load_bob_library'' = Some f \<and>
        call_ext w f [VStr ''bob.ip.gabor'', VStr (file_path w)] = Inl e" for x f e
    using loader_failure [OF n, of x f e] that
    by (simp add: r import_package_fst [OF assms(1)])
  have 4: "\<not> initialised s' \<and> ns s' = [] \<and>
        ((\<exists>m. exec_module w m = Some e \<and> events s' \<noteq> [] \<and> last (events s') = ELoad m) \<or>
         (\<exists>f args. call_ext w f args = Inl e \<and> events s' \<noteq> [] \<and>
            last (events s') = ECall f args) \<or>
         (\<exists>v a. attr_of w v a = None \<and> e = AttributeError v a) \<or>
         (\<exists>m a. attr_of w (VModule m) a = None \<and> e = ImportError m a))" if "r = Some e" for e
  proof -
    from that assms(2) have fail: "import_package w s = (Some e, s')" by simp
    note ff = import_package_fail [OF fail]
    from ff(3) obtain u where
      u: "exec (module_body w) (fresh_module w s) = (Some e, u)" "events s' = events u"
        "initialised s' = initialised u"
      by blast
    from body_initialised [of w "fresh_module w s"] u assms(1) have "\<not> initialised s'"
      by (simp add: fresh_module_def)
    moreover from body_raised [OF u(1) n] u(2) have
      "(\<exists>m. exec_module w m = Some e \<and> events s' \<noteq> [] \<and> last (events s') = ELoad m) \<or>
       (\<exists>f args. call_ext w f args = Inl e \<and> events s' \<noteq> [] \<and> last (events s') = ECall f args) \<or>
       (\<exists>v a. attr_of w v a = None \<and> e = AttributeError v a) \<or>
       (\<exists>m a. attr_of w (VModule m) a = None \<and> e = ImportError m a)"
      by (simp add: raised_by_def)
    ultimately show ?thesis using ff(2) by simp
  qed
  have 5: "fst (get_config w t) = Inl e'" if "map_of (ns t) ''bob'' = Some b \<and>
        attr_of w b ''extension'' = Some x \<and> attr_of w x ''get_config'' = Some f \<and>
        map_of (ns t) ''__name__'' = Some n \<and> map_of (ns t) ''version'' = Some v \<and>
        attr_of w v ''externals'' = Some ext \<and> attr_of w v ''api'' = Some api \<and>
        call_ext w f [n, ext, api] = Inl e'" for t b x f n v ext api e'
    using that by (intro get_config_forward [of t b w x f n v ext api e']) simp_all
  have 6: "(\<exists>f args. call_ext w f args = Inl e' \<and>
            events (snd (get_config w t)) = events t @ [ECall f args]) \<or>
        (\<exists>n. map_of (ns t) n = None \<and> e' = NameError n) \<or>
        (\<exists>v a. attr_of w v a = None \<and> e' = AttributeError v a)"
    if "fst (get_config w t) = Inl e'" for t e'
    using get_config_raised [OF that] .
  show ?thesis
    apply (intro conjI allI impI)
         apply (rule 1)
        apply (erule 2)
       apply (erule 3)
      apply (drule 4, simp)
      apply (drule 4, simp)
      apply (drule 4, simp)
     apply (erule 5)
    apply (erule 6)
    done
qed

theorem failure_propagates_witness:
  "\<not> initialised s0 \<and>
   call_ext w2 (VFunc ''bob.extension'' ''load_bob_library'')
     [VStr ''bob.ip.gabor'', VStr (file_path w2)] = Inl (Raised ''library not found'') \<and>
   fst (import_package w2 s0) = Some (Raised ''library not found'') \<and>
   \<not> initialised (snd (import_package w2 s0)) \<and> ns (snd (import_package w2 s0)) = [] \<and>
   last (events (snd (import_package w2 s0))) =
     ECall (VFunc ''bob.extension'' ''load_bob_library'')
       [VStr ''bob.ip.gabor'', VStr ''/site/bob/ip/gabor/__init__.py''] \<and>
   exec_module w1 ''bob.ip.gabor._library'' = Some (Raised ''cannot open shared object file'') \<and>
   fst (import_package w1 s0) = Some (Raised ''cannot open shared object file'') \<and>
   fst (get_config w1 (snd (import_package w0 s0))) = Inl (Raised ''DistributionNotFound'')"
proof -
  have p2: "import_package w2 s0 = (fst (import_package w2 s0), snd (import_package w2 s0))"
    and p1: "import_package w1 s0 = (fst (import_package w1 s0), snd (import_package w1 s0))"
    by simp_all
  note t2 = failure_propagates [OF s0_fresh p2] and t1 = failure_propagates [OF s0_fresh p1]
  have a: "exec_module w2 ''bob.io.base'' = None" "exec_module w2 ''bob.sp'' = None"
    "exec_module w2 ''bob.extension'' = None"
    "attr_of w2 (VModule ''bob'') ''extension'' = Some (VModule ''bob.extension'')"
    "attr_of w2 (VModule ''bob.extension'') ''load_bob_library'' =
       Some (VFunc ''bob.extension'' ''load_bob_library'')"
    "call_ext w2 (VFunc ''bob.extension'' ''load_bob_library'')
       [VStr ''bob.ip.gabor'', VStr (file_path w2)] = Inl (Raised ''library not found'')"
    by (simp_all add: w2_def w0_def attrs0_def)
  from t2 [THEN conjunct2, THEN conjunct2, THEN conjunct1, rule_format,
      of "VModule ''bob.extension''" "VFunc ''bob.extension'' ''load_bob_library''"
        "Raised ''library not found''"] a
  have r2: "fst (import_package w2 s0) = Some (Raised ''library not found'')"
    by simp
  from t2 [THEN conjunct2, THEN conjunct2, THEN conjunct2, THEN conjunct1, rule_format, OF r2]
  have n2: "\<not> initialised (snd (import_package w2 s0))"
    "ns (snd (import_package w2 s0)) = []"
    by simp_all
  have o: "exec_module w1 ''bob.ip.gabor._library'' = Some (Raised ''cannot open shared object file'')"
    by (simp add: w1_def)
  from t1 [THEN conjunct1] obtain evs where
    e: "events (snd (import_package w1 s0)) = events s0 @ evs"
      "\<forall>e. evs \<noteq> [] \<and> outcome w1 (last evs) = Some e \<longrightarrow> fst (import_package w1 s0) = Some e"
    by blast
  from e(1) have "evs = events (snd (import_package w1 s0))" by (simp add: s0_def)
  with w1_events o have "evs \<noteq> [] \<and>
      outcome w1 (last evs) = Some (Raised ''cannot open shared object file'')"
    by simp
  with e(2) have r1: "fst (import_package w1 s0) = Some (Raised ''cannot open shared object file'')"
    by blast
  from s0_fresh a(6) r2 n2 w2_last o r1 w1_get_config show ?thesis by simp
qed

text \<open>
  C6. A call of \<^verbatim>\<open>get_config\<close> leaves the namespace as it is, whatever the state and whatever
  the outcome: no binding is created, removed or changed (so \<^verbatim>\<open>__all__\<close>, \<^verbatim>\<open>__version__\<close>
  and \<^verbatim>\<open>__api_version__\<close> keep their values), nothing is stored, no module is loaded. It
  reads names and attributes and calls the formatting utility at most once.
\<close>

theorem get_config_no_side_effect:
  "ns (snd (get_config w s)) = ns s \<and> stores (snd (get_config w s)) = stores s \<and>
   loaded (snd (get_config w s)) = loaded s \<and>
   initialised (snd (get_config w s)) = initialised s \<and>
   (events (snd (get_config w s)) = events s \<or>
    (\<exists>f a b c. events (snd (get_config w s)) = events s @ [ECall f [a, b, c]]))"
  using get_config_events [of w s] by (simp add: get_config_frame)

theorem get_config_no_side_effect_witness:
  "ns (snd (get_config w0 (snd (import_package w0 s0)))) = ns (snd (import_package w0 s0)) \<and>
   map_of (ns (snd (get_config w0 (snd (import_package w0 s0))))) ''__all__'' =
     Some (VList (map VStr [''Graph'', ''Jet'', ''Similarity'', ''Transform'', ''Wavelet'',
       ''auxiliar'', ''bob'', ''get_config'', ''load_jets'', ''save_jets'', ''version'']))"
  using get_config_no_side_effect [of w0 "snd (import_package w0 s0)"] w0_all by simp

text \<open>
  C7, as amended. Every name that is bound during the load sequence is bound exactly once,
  with two exceptions: \<^verbatim>\<open>bob\<close> is bound three times, by each of the three
  \<^verbatim>\<open>import bob. ...\<close> statements of lines 2, 3 and 6, and \<^verbatim>\<open>version\<close> once or twice, by
  \<^verbatim>\<open>from . import version\<close> and by the import system when it executes the submodule. Both
  are bound to the same object every time, so every binding made during the load still holds
  when the load completes. This is for a native library that exports each name once and none
  of the names the body binds itself. After the load, calling \<^verbatim>\<open>get_config\<close>,
  \<^verbatim>\<open>load_jets\<close>, \<^verbatim>\<open>save_jets\<close> or any other value of the namespace leaves the namespace,
  hence \<^verbatim>\<open>__all__\<close> and the set of names, unchanged.
\<close>

theorem bindings_hold_after_load:
  assumes "import_package w s = (None, s')" and "\<not> initialised s"
    and "distinct (map fst (star_names w (submodule ''_library'')))"
    and "fst ` set (star_names w (submodule ''_library'')) \<inter>
      {''bob'', ''_library'', ''version'', ''__version__'', ''__api_version__'', ''auxiliar'',
       ''load_jets'', ''save_jets'', ''get_config'', ''__all__''} = {}"
  shows "count_list (map fst (stores s')) ''bob'' = 3 \<and>
     (count_list (map fst (stores s')) ''version'' = 1 \<or>
      count_list (map fst (stores s')) ''version'' = 2) \<and>
     (\<forall>n \<in> fst ` set (stores s'). n \<noteq> ''bob'' \<and> n \<noteq> ''version'' \<longrightarrow>
        count_list (map fst (stores s')) n = 1) \<and>
     (\<forall>(n, v) \<in> set (stores s'). map_of (ns s') n = Some v) \<and>
     (\<forall>f args. ns (snd (call_value w f args s')) = ns s' \<and>
        stores (snd (call_value w f args s')) = stores s')"
proof -
  define p where "p = snd (exec (preamble w) (fresh_module w s))"
  note sm = import_package_summary [OF assms(1,2), folded p_def]
  have e: "stores (fresh_module w s) = []"
    by (simp add: fresh_module_def)
  note c = preamble_counts [OF sm(1) e assms(3,4)]
  have k: "map fst (stores s') = map fst (stores p) @ [''__all__'']"
    by (simp add: sm(7))
  have 1: "count_list (map fst (stores s')) ''bob'' = 3"
    by (simp add: k c(1))
  have 2: "count_list (map fst (stores s')) ''version'' = 1 \<or>
      count_list (map fst (stores s')) ''version'' = 2"
    using c(2) by (simp add: k)
  have 3: "count_list (map fst (stores s')) n = 1"
    if "n \<in> fst ` set (stores s')" "n \<noteq> ''bob'' \<and> n \<noteq> ''version''" for n
  proof (cases "n = ''__all__''")
    case True
    with c(3) show ?thesis by (simp add: k)
  next
    case False
    with that(1) have "n \<in> fst ` set (stores p)" by (auto simp: sm(7))
    from c(4) [OF this] that(2) False show ?thesis by (simp add: k)
  qed
  have 4: "map_of (ns s') n = Some v" if "(n, v) \<in> set (stores s')" for n v
  proof -
    from that have "n = ''__all__'' \<and> v = VList (map VStr (public_names p)) \<or>
        (n, v) \<in> set (stores p)"
      by (simp add: sm(7))
    then show ?thesis
    proof
      assume "n = ''__all__'' \<and> v = VList (map VStr (public_names p))"
      then show ?thesis by (simp add: sm(3))
    next
      assume "(n, v) \<in> set (stores p)"
      from preamble_stores_hold [OF sm(1,2) e assms(3,4) this] show ?thesis
        by (simp add: sm(4))
    qed
  qed
  from 1 2 3 4 show ?thesis
    by (simp add: call_value_frame split_beta)
qed

text \<open>
  C7 as stated says that every name is bound exactly once during the load sequence. In the
  concrete environment the import succeeds and the name \<^verbatim>\<open>bob\<close> is bound three times, once
  by each of lines 2, 3 and 6.
\<close>

theorem bound_once_counterexample:
  "fst (import_package w0 s0) = None \<and>
   count_list (map fst (stores (snd (import_package w0 s0)))) ''bob'' = 3"
  by code_simp

theorem bindings_hold_after_load_witness:
  "import_package w0 s0 = (None, snd (import_package w0 s0)) \<and> \<not> initialised s0 \<and>
   distinct (map fst (star_names w0 (submodule ''_library''))) \<and>
   fst ` set (star_names w0 (submodule ''_library'')) \<inter>
      {''bob'', ''_library'', ''version'', ''__version__'', ''__api_version__'', ''auxiliar'',
       ''load_jets'', ''save_jets'', ''get_config'', ''__all__''} = {} \<and>
   count_list (map fst (stores (snd (import_package w0 s0)))) ''bob'' = 3 \<and>
   count_list (map fst (stores (snd (import_package w0 s0)))) ''load_jets'' = 1 \<and>
   (''bob'', VModule ''bob'') \<in> set (stores (snd (import_package w0 s0))) \<and>
   map_of (ns (snd (import_package w0 s0))) ''bob'' = Some (VModule ''bob'') \<and>
   ns (snd (call_value w0 (VFunc ''bob.ip.gabor.auxiliar'' ''load_jets'') [VStr ''jets.hdf5'']
     (snd (import_package w0 s0)))) = ns (snd (import_package w0 s0))"
proof -
  note t = bindings_hold_after_load [OF w0_result s0_fresh w0_star]
  from w0_load_jets_stored have "''load_jets'' \<in> fst ` set (stores (snd (import_package w0 s0)))"
    by (rule image_eqI [of _ _ "(''load_jets'', VFunc ''bob.ip.gabor.auxiliar'' ''load_jets'')", rotated])
      simp
  from t [THEN conjunct2, THEN conjunct2, THEN conjunct1, rule_format, OF this]
  have "count_list (map fst (stores (snd (import_package w0 s0)))) ''load_jets'' = 1"
    by simp
  with t w0_star w0_bob_stored w0_result s0_fresh show ?thesis by auto
qed



text \<open>
  C9. \<^verbatim>\<open>__all__\<close> is assigned last, so it holds \<^verbatim>\<open>get_config\<close> and the names the imports
  bind (\<^verbatim>\<open>bob\<close>, \<^verbatim>\<open>version\<close>, \<^verbatim>\<open>load_jets\<close>, \<^verbatim>\<open>save_jets\<close>), and every name of the final
  namespace without a leading underscore: none is left out because it was bound later.
\<close>

theorem all_holds_bound_names:
  assumes "import_package w s = (None, s')" and "\<not> initialised s"
  shows "\<exists>xs. map_of (ns s') ''__all__'' = Some (VList (map VStr xs)) \<and>
     ''get_config'' \<in> set xs \<and> ''bob'' \<in> set xs \<and> ''version'' \<in> set xs \<and>
     ''load_jets'' \<in> set xs \<and> ''save_jets'' \<in> set xs \<and>
     (\<forall>n \<in> fst ` set (ns s'). \<not> startswith n ''_'' \<longrightarrow> n \<in> set xs)"
proof -
  define p where "p = snd (exec (preamble w) (fresh_module w s))"
  note sm = import_package_summary [OF assms, folded p_def]
  note p = sm(1,2) and a = sm(3) and k = sm(5)
  from preamble_lookups [OF p] obtain f g where
    "map_of (ns p) ''load_jets'' = Some f" "map_of (ns p) ''save_jets'' = Some g"
    "map_of (ns p) ''get_config'' = Some (VFunc pkg_name ''get_config'')"
    "''bob'' \<in> fst ` set (ns p)" "''version'' \<in> fst ` set (ns p)"
    by blast
  then have
    "''get_config'' \<in> fst ` set (ns p)" "''bob'' \<in> fst ` set (ns p)"
    "''version'' \<in> fst ` set (ns p)" "''load_jets'' \<in> fst ` set (ns p)"
    "''save_jets'' \<in> fst ` set (ns p)"
    by (simp_all add: map_of_keyI)
  then have m: "''get_config'' \<in> set (public_names p)" "''bob'' \<in> set (public_names p)"
    "''version'' \<in> set (public_names p)" "''load_jets'' \<in> set (public_names p)"
    "''save_jets'' \<in> set (public_names p)"
    by (simp_all add: public_names_set startswith_def)
  have "startswith ''__all__'' ''_''"
    by (simp add: startswith_def)
  then have "\<forall>n \<in> fst ` set (ns s'). \<not> startswith n ''_'' \<longrightarrow> n \<in> set (public_names p)"
    unfolding k by (simp add: public_names_set)
  with a m show ?thesis
    by (intro exI [of _ "public_names p"]) simp
qed

theorem all_holds_bound_names_witness:
  "import_package w0 s0 = (None, snd (import_package w0 s0)) \<and> \<not> initialised s0 \<and>
   (\<exists>xs. map_of (ns (snd (import_package w0 s0))) ''__all__'' = Some (VList (map VStr xs)) \<and>
     ''get_config'' \<in> set xs \<and> ''bob'' \<in> set xs \<and> ''version'' \<in> set xs \<and>
     ''load_jets'' \<in> set xs \<and> ''save_jets'' \<in> set xs \<and>
     (\<forall>n \<in> fst ` set (ns (snd (import_package w0 s0))). \<not> startswith n ''_'' \<longrightarrow> n \<in> set xs))"
  using all_holds_bound_names [OF w0_result s0_fresh] w0_result s0_fresh by simp

text \<open>
  C10. After a successful import \<^verbatim>\<open>__version__\<close> is bound to the attribute \<^verbatim>\<open>module\<close> of
  the module \<^verbatim>\<open>version\<close> and \<^verbatim>\<open>__api_version__\<close> to its attribute \<^verbatim>\<open>api\<close>; both names start
  with an underscore and are not in \<^verbatim>\<open>__all__\<close>, while \<^verbatim>\<open>version\<close> is in it (and is bound to
  the submodule, unless the native library exports a name \<^verbatim>\<open>version\<close> of its own).
\<close>

theorem version_names:
  assumes "import_package w s = (None, s')" and "\<not> initialised s"
  shows "\<exists>vm va xs.
     attr_of w (VModule (submodule ''version'')) ''module'' = Some vm \<and>
     attr_of w (VModule (submodule ''version'')) ''api'' = Some va \<and>
     map_of (ns s') ''__version__'' = Some vm \<and>
     map_of (ns s') ''__api_version__'' = Some va \<and>
     startswith ''__version__'' ''_'' \<and> startswith ''__api_version__'' ''_'' \<and>
     map_of (ns s') ''__all__'' = Some (VList (map VStr xs)) \<and>
     ''__version__'' \<notin> set xs \<and> ''__api_version__'' \<notin> set xs \<and> ''version'' \<in> set xs \<and>
     (''version'' \<notin> fst ` set (star_names w (submodule ''_library'')) \<longrightarrow>
        map_of (ns s') ''version'' = Some (VModule (submodule ''version'')))"
proof -
  define p where "p = snd (exec (preamble w) (fresh_module w s))"
  note sm = import_package_summary [OF assms, folded p_def]
  note p = sm(1,2) and a = sm(3) and l = sm(4)
  from preamble_lookups [OF p] obtain vm va where
    v: "attr_of w (VModule (submodule ''version'')) ''module'' = Some vm"
       "attr_of w (VModule (submodule ''version'')) ''api'' = Some va"
       "map_of (ns p) ''__version__'' = Some vm" "map_of (ns p) ''__api_version__'' = Some va"
       "''version'' \<in> fst ` set (ns p)"
       "''version'' \<notin> fst ` set (star_names w (submodule ''_library'')) \<longrightarrow>
          map_of (ns p) ''version'' = Some (VModule (submodule ''version''))"
    by blast
  have u: "startswith ''__version__'' ''_''" "startswith ''__api_version__'' ''_''"
    "\<not> startswith ''version'' ''_''"
    by (simp_all add: startswith_def)
  then have x: "''__version__'' \<notin> set (public_names p)" "''__api_version__'' \<notin> set (public_names p)"
    "''version'' \<in> set (public_names p)"
    using v(5) by (simp_all add: public_names_set)
  show ?thesis
    apply (rule exI [of _ vm], rule exI [of _ va], rule exI [of _ "public_names p"])
    using v u x a l apply simp
    done
qed

theorem version_names_witness:
  "import_package w0 s0 = (None, snd (import_package w0 s0)) \<and> \<not> initialised s0 \<and>
   ''version'' \<notin> fst ` set (star_names w0 (submodule ''_library'')) \<and>
   map_of (ns (snd (import_package w0 s0))) ''__version__'' = Some (VStr ''2.0.0'') \<and>
   map_of (ns (snd (import_package w0 s0))) ''__api_version__'' = Some (VObj 512) \<and>
   map_of (ns (snd (import_package w0 s0))) ''version'' = Some (VModule (submodule ''version''))"
proof -
  have a: "attr_of w0 (VModule (submodule ''version'')) ''module'' = Some (VStr ''2.0.0'')"
    "attr_of w0 (VModule (submodule ''version'')) ''api'' = Some (VObj 512)"
    by (simp_all add: w0_def attrs0_def submodule_def pkg_name_def)
  have star: "''version'' \<notin> fst ` set (star_names w0 (submodule ''_library''))"
    by (simp add: w0_def lib_names_def submodule_def pkg_name_def)
  from version_names [OF w0_result s0_fresh] a star w0_result s0_fresh show ?thesis
    by auto
qed

end
